theory Spec2Isabelle
  imports Main
begin

section \<open>Python values, exceptions and the string library\<close>

text \<open>
  The metadata of a retrieved document is a Python dict from field names to arbitrary
  values. The values the assembler distinguishes are \<open>None\<close>, strings and integers
  (page numbers). Strings are lists of code points below 256.
\<close>

datatype pyval = PNone | PStr string | PInt int

datatype exn = ValueError | TypeError | IndexError

type_synonym pydict = "(string \<times> pyval) list"

text \<open>Truth value of an object in a condition (\<open>if x:\<close>).\<close>

definition truthy :: "pyval \<Rightarrow> bool" where
  "truthy v = (case v of PNone \<Rightarrow> False | PStr s \<Rightarrow> s \<noteq> [] | PInt n \<Rightarrow> n \<noteq> 0)"

text \<open>Sequencing of computations that may raise: the first exception propagates.\<close>

definition ebind :: "exn + 'a \<Rightarrow> ('a \<Rightarrow> exn + 'b) \<Rightarrow> exn + 'b" where
  "ebind m f = (case m of Inl e \<Rightarrow> Inl e | Inr x \<Rightarrow> f x)"

text \<open>A list comprehension \<open>[f(x) for x in xs]\<close> whose body may raise.\<close>

fun emap :: "('a \<Rightarrow> exn + 'b) \<Rightarrow> 'a list \<Rightarrow> exn + 'b list" where
  "emap f [] = Inr []"
| "emap f (x # xs) = ebind (f x) (\<lambda>y. ebind (emap f xs) (\<lambda>ys. Inr (y # ys)))"

text \<open>\<open>xs[i]\<close> for a non-negative index: out of range raises IndexError.\<close>

definition py_index :: "'a list \<Rightarrow> nat \<Rightarrow> exn + 'a" where
  "py_index xs i = (if i < length xs then Inr (xs ! i) else Inl IndexError)"

text \<open>\<open>d.get(key, default)\<close>.\<close>

definition dict_get :: "(string \<rightharpoonup> pyval) \<Rightarrow> string \<Rightarrow> pyval \<Rightarrow> pyval" where
  "dict_get m k dflt = (case m k of None \<Rightarrow> dflt | Some v \<Rightarrow> v)"

fun startswith :: "string \<Rightarrow> string \<Rightarrow> bool" where
  "startswith s [] = True"
| "startswith [] (p # ps) = False"
| "startswith (c # cs) (p # ps) = (c = p \<and> startswith cs ps)"

text \<open>\<open>sub in s\<close> for two strings: \<open>sub\<close> occurs in \<open>s\<close> as a contiguous substring.\<close>

fun str_in :: "string \<Rightarrow> string \<Rightarrow> bool" where
  "str_in sub [] = (sub = [])"
| "str_in sub (c # cs) = (startswith (c # cs) sub \<or> str_in sub cs)"

text \<open>\<open>sub in v\<close> where \<open>v\<close> is any value: None and integers are not iterable.\<close>

definition py_in :: "string \<Rightarrow> pyval \<Rightarrow> exn + bool" where
  "py_in sub v = (case v of PStr s \<Rightarrow> Inr (str_in sub s) | _ \<Rightarrow> Inl TypeError)"

text \<open>
  \<open>s.split(sep)\<close> for a non-empty separator: the occurrences of \<open>sep\<close> are found from
  left to right without overlap; \<open>cur\<close> holds the current piece, reversed. The result is
  never the empty list. Every call in the program passes a non-empty literal separator
  (Python raises ValueError on an empty one; here nothing is split then).
\<close>

function split_from :: "string \<Rightarrow> string \<Rightarrow> string \<Rightarrow> string list" where
  "split_from sep cur [] = [rev cur]"
| "split_from sep cur (c # cs) =
     (if sep \<noteq> [] \<and> startswith (c # cs) sep
      then rev cur # split_from sep [] (drop (length sep) (c # cs))
      else split_from sep (c # cur) cs)"
  by pat_completeness auto
termination
  by (relation "measure (\<lambda>(sep, cur, s). length s)") auto

definition str_split :: "string \<Rightarrow> string \<Rightarrow> string list" where
  "str_split sep s = split_from sep [] s"

text \<open>\<open>os.path.basename\<close> (POSIX): what follows the last slash; not a string: TypeError.\<close>

definition basename :: "string \<Rightarrow> string" where
  "basename p = rev (takeWhile (\<lambda>c. c \<noteq> CHR ''/'') (rev p))"

definition py_basename :: "pyval \<Rightarrow> exn + pyval" where
  "py_basename v = (case v of PStr s \<Rightarrow> Inr (PStr (basename s)) | _ \<Rightarrow> Inl TypeError)"

text \<open>Decimal rendering of an integer, as \<open>str(n)\<close> and the f-string \<open>{n}\<close> give it.\<close>

definition digit_char :: "nat \<Rightarrow> char" where
  "digit_char n = ''0123456789'' ! n"

function str_of_nat :: "nat \<Rightarrow> string" where
  "str_of_nat n =
     (if n < 10 then [digit_char n] else str_of_nat (n div 10) @ [digit_char (n mod 10)])"
  by pat_completeness auto
termination
  by (relation "measure (\<lambda>n. n)") auto

declare str_of_nat.simps [simp del]

definition str_of_int :: "int \<Rightarrow> string" where
  "str_of_int i = (if i < 0 then CHR ''-'' # str_of_nat (nat (- i)) else str_of_nat (nat i))"

text \<open>\<open>url += suffix\<close>: concatenation is defined between strings only.\<close>

definition str_add :: "pyval \<Rightarrow> string \<Rightarrow> exn + pyval" where
  "str_add v suffix = (case v of PStr s \<Rightarrow> Inr (PStr (s @ suffix)) | _ \<Rightarrow> Inl TypeError)"

subsection \<open>\<open>int(s)\<close> on a string\<close>

text \<open>
  \<open>int\<close> strips surrounding whitespace, accepts one sign, and then decimal digits with
  single underscores between digits. More than 4300 digits are refused (the interpreter's
  default limit for the conversion). Anything else raises ValueError.
\<close>

definition is_digit :: "char \<Rightarrow> bool" where
  "is_digit c = (c \<in> set ''0123456789'')"

definition digit_val :: "char \<Rightarrow> nat" where
  "digit_val c = of_char c - 48"

definition is_space :: "char \<Rightarrow> bool" where
  "is_space c =
     (c \<in> set [CHR 0x09, CHR 0x0A, CHR 0x0B, CHR 0x0C, CHR 0x0D, CHR 0x20, CHR 0x85, CHR 0xA0])"

definition strip_space :: "string \<Rightarrow> string" where
  "strip_space s = rev (dropWhile is_space (rev (dropWhile is_space s)))"

fun digits_us :: "string \<Rightarrow> string option" where
  "digits_us [] = None"
| "digits_us [c] = (if is_digit c then Some [c] else None)"
| "digits_us (c # d # r) =
     (if is_digit c
      then (if d = CHR ''_'' then map_option (Cons c) (digits_us r)
            else map_option (Cons c) (digits_us (d # r)))
      else None)"

definition dec_value :: "string \<Rightarrow> nat" where
  "dec_value ds = foldl (\<lambda>a c. 10 * a + digit_val c) 0 ds"

definition int_max_str_digits :: nat where
  "int_max_str_digits = 4300"

definition py_int_str :: "string \<Rightarrow> exn + int" where
  "py_int_str s =
     (let t = strip_space s;
          (sign, body) = (case t of
                            c # r \<Rightarrow> if c = CHR ''+'' then (1, r)
                                     else if c = CHR ''-'' then (- 1, r)
                                     else (1, t)
                          | [] \<Rightarrow> (1, t))
      in case digits_us body of
           None \<Rightarrow> Inl ValueError
         | Some ds \<Rightarrow> if length ds > int_max_str_digits then Inl ValueError
                      else Inr (sign * int (dec_value ds)))"

subsection \<open>\<open>datetime.strptime\<close> and \<open>strftime\<close>\<close>

text \<open>
  \<open>strptime\<close> turns the format into a regular expression and takes its first match at
  the start of the string, in the order a backtracking matcher tries the alternatives;
  each function below returns the matches of one piece in that order, as pairs of the
  matched text and the rest. The directives are
  \<open>%m\<close>: \<^verbatim>\<open>1[0-2]|0[1-9]|[1-9]\<close>,
  \<open>%d\<close>: \<^verbatim>\<open>3[0-1]|[1-2]\d|0[1-9]|[1-9]| [1-9]\<close> and
  \<open>%Y\<close>: \<^verbatim>\<open>\d\d\d\d\<close>.
\<close>

definition re_m :: "string \<Rightarrow> (string \<times> string) list" where
  "re_m s =
     (case s of c1 # c2 # r \<Rightarrow>
        if c1 = CHR ''1'' \<and> c2 \<in> set ''012'' then [([c1, c2], r)] else [] | _ \<Rightarrow> []) @
     (case s of c1 # c2 # r \<Rightarrow>
        if c1 = CHR ''0'' \<and> c2 \<in> set ''123456789'' then [([c1, c2], r)] else [] | _ \<Rightarrow> []) @
     (case s of c1 # r \<Rightarrow>
        if c1 \<in> set ''123456789'' then [([c1], r)] else [] | _ \<Rightarrow> [])"

definition re_d :: "string \<Rightarrow> (string \<times> string) list" where
  "re_d s =
     (case s of c1 # c2 # r \<Rightarrow>
        if c1 = CHR ''3'' \<and> c2 \<in> set ''01'' then [([c1, c2], r)] else [] | _ \<Rightarrow> []) @
     (case s of c1 # c2 # r \<Rightarrow>
        if c1 \<in> set ''12'' \<and> is_digit c2 then [([c1, c2], r)] else [] | _ \<Rightarrow> []) @
     (case s of c1 # c2 # r \<Rightarrow>
        if c1 = CHR ''0'' \<and> c2 \<in> set ''123456789'' then [([c1, c2], r)] else [] | _ \<Rightarrow> []) @
     (case s of c1 # r \<Rightarrow>
        if c1 \<in> set ''123456789'' then [([c1], r)] else [] | _ \<Rightarrow> []) @
     (case s of c1 # c2 # r \<Rightarrow>
        if c1 = CHR '' '' \<and> c2 \<in> set ''123456789'' then [([c1, c2], r)] else [] | _ \<Rightarrow> [])"

definition re_Y :: "string \<Rightarrow> (string \<times> string) list" where
  "re_Y s =
     (case s of a # b # c # d # r \<Rightarrow>
        if is_digit a \<and> is_digit b \<and> is_digit c \<and> is_digit d then [([a, b, c, d], r)] else []
      | _ \<Rightarrow> [])"

definition re_lit :: "char \<Rightarrow> string \<Rightarrow> string list" where
  "re_lit x s = (case s of c # r \<Rightarrow> if c = x then [r] else [] | [] \<Rightarrow> [])"

text \<open>The matches of the whole pattern for \<open>%m-%d-%Y\<close>: the three groups and the rest.\<close>

definition regex_mdY :: "string \<Rightarrow> (string \<times> string \<times> string \<times> string) list" where
  "regex_mdY s =
     [(m, d, y, r5).
        (m, r1) \<leftarrow> re_m s, r2 \<leftarrow> re_lit (CHR ''-'') r1,
        (d, r3) \<leftarrow> re_d r2, r4 \<leftarrow> re_lit (CHR ''-'') r3,
        (y, r5) \<leftarrow> re_Y r4]"

record date =
  year :: int
  month :: int
  day :: int

definition is_leap :: "int \<Rightarrow> bool" where
  "is_leap y = (y mod 4 = 0 \<and> (y mod 100 \<noteq> 0 \<or> y mod 400 = 0))"

definition days_in_month :: "int \<Rightarrow> int \<Rightarrow> int" where
  "days_in_month y m =
     (if m = 2 then (if is_leap y then 29 else 28)
      else if m \<in> {4, 6, 9, 11} then 30 else 31)"

text \<open>
  \<open>strptime(s, "%m-%d-%Y")\<close>: no match, text left over after the first match, or a date
  that the calendar does not have (year 0, day beyond the month) raises ValueError.
\<close>

definition strptime_mdY :: "string \<Rightarrow> exn + date" where
  "strptime_mdY s =
     (case regex_mdY s of
        [] \<Rightarrow> Inl ValueError
      | (m, d, y, rest) # _ \<Rightarrow>
          if rest \<noteq> [] then Inl ValueError
          else ebind (py_int_str y) (\<lambda>yv.
               ebind (py_int_str m) (\<lambda>mv.
               ebind (py_int_str d) (\<lambda>dv.
                 if yv < 1 \<or> 9999 < yv \<or> mv < 1 \<or> 12 < mv \<or> dv < 1 \<or> days_in_month yv mv < dv
                 then Inl ValueError
                 else Inr \<lparr>year = yv, month = mv, day = dv\<rparr>))))"

text \<open>
  \<open>strptime(s, fmt)\<close> for the two formats the program passes. The second one,
  \<open>%-m-%-d-%Y\<close>, has the directive \<open>%-\<close>, which \<open>strptime\<close> does not know: it raises
  ValueError (bad directive) whatever the string is.
\<close>

definition strptime :: "string \<Rightarrow> string \<Rightarrow> exn + date" where
  "strptime s fmt = (if fmt = ''%m-%d-%Y'' then strptime_mdY s else Inl ValueError)"

definition pad2 :: "int \<Rightarrow> string" where
  "pad2 n = (if n < 10 then CHR ''0'' # str_of_int n else str_of_int n)"

text \<open>
  \<open>d.strftime("%m/%d/%Y")\<close>: month and day on two digits, the year in decimal (the C
  library does not pad a year below 1000).
\<close>

definition strftime_mdY :: "date \<Rightarrow> string" where
  "strftime_mdY d = pad2 (month d) @ ''/'' @ pad2 (day d) @ ''/'' @ str_of_int (year d)"

section \<open>Metadata parsing\<close>

definition invalid_date_format :: string where
  "invalid_date_format = ''Invalid date format''"

definition convert_date_format :: "pyval \<Rightarrow> exn + string" where
  "convert_date_format date_str =
     (case date_str of
        PStr s \<Rightarrow>
          if str_in ''/'' s then Inr s
          else (case strptime s ''%m-%d-%Y'' of
                  Inr date_obj \<Rightarrow> Inr (strftime_mdY date_obj)
                | Inl ValueError \<Rightarrow>
                    (case strptime s ''%-m-%-d-%Y'' of
                       Inr date_obj \<Rightarrow> Inr (strftime_mdY date_obj)
                     | Inl ValueError \<Rightarrow> Inr invalid_date_format
                     | Inl e \<Rightarrow> Inl e)
                | Inl e \<Rightarrow> Inl e)
      | _ \<Rightarrow> Inr ''Invalid input: not a string'')"

definition timestamp_not_available :: string where
  "timestamp_not_available = ''timestamp not available''"

definition timestamp_to_seconds :: "pyval \<Rightarrow> exn + int option" where
  "timestamp_to_seconds timestamp =
     ebind (py_in timestamp_not_available timestamp) (\<lambda>unavailable.
       if unavailable then Inr None
       else (case timestamp of
               PStr ts \<Rightarrow>
                 ebind (py_index (str_split ''-'' ts) 0) (\<lambda>start_time.
                 ebind (emap py_int_str (str_split '':'' start_time)) (\<lambda>time_parts.
                   case time_parts of
                     [h, m, s] \<Rightarrow> Inr (Some (h * 3600 + m * 60 + s))
                   | [h, m] \<Rightarrow> Inr (Some (h * 3600 + m * 60 + 0))
                   | _ \<Rightarrow> Inl ValueError))
             | _ \<Rightarrow> Inl TypeError))"

section \<open>The response and citation assembler\<close>

record document =
  page_content :: string
  metadata :: "string \<rightharpoonup> pyval"

text \<open>The per-document lists that \<open>process_responses_llm\<close> builds before its loop.\<close>

record doc_columns =
  generated_titles :: "pyval list"
  page_numbers :: "pyval list"
  generated_sources :: "pyval list"
  publish_dates :: "pyval list"
  timestamps :: "pyval list"
  urls :: "pyval list"

record answer_section =
  response :: pyval
  source_title :: pyval
  source_name :: pyval
  source_page_number :: pyval
  source_publish_date :: pyval
  source_timestamp :: pyval
  source_url :: pyval

record response_card =
  card_type :: string
  responses :: "pydict list"
  citations :: "pydict list"

definition build_columns :: "document list \<Rightarrow> exn + doc_columns" where
  "build_columns docs =
     ebind (emap (\<lambda>doc. ebind (convert_date_format
                                  (dict_get (metadata doc) ''publish_date'' (PStr ''date not available'')))
                               (\<lambda>s. Inr (PStr s))) docs) (\<lambda>dates.
       Inr \<lparr>generated_titles =
              map (\<lambda>doc. dict_get (metadata doc) ''title''
                            (dict_get (metadata doc) ''source'' (PStr []))) docs,
            page_numbers = map (\<lambda>doc. dict_get (metadata doc) ''page_number'' PNone) docs,
            generated_sources =
              map (\<lambda>doc. dict_get (metadata doc) ''source'' (PStr ''source not available'')) docs,
            publish_dates = dates,
            timestamps =
              map (\<lambda>doc. dict_get (metadata doc) ''timestamp'' (PStr timestamp_not_available)) docs,
            urls = map (\<lambda>doc. dict_get (metadata doc) ''url'' (PStr ''url not available'')) docs\<rparr>)"

text \<open>\<open>xs[i] if i < len(xs) else None\<close>.\<close>

definition index_or_none :: "pyval list \<Rightarrow> nat \<Rightarrow> exn + pyval" where
  "index_or_none xs i = (if i < length xs then py_index xs i else Inr PNone)"

text \<open>The URL of a section after the offset of its timestamp has been appended.\<close>

definition augment_url :: "pyval \<Rightarrow> pyval \<Rightarrow> exn + pyval" where
  "augment_url url ts =
     (if truthy url \<and> truthy ts
      then ebind (timestamp_to_seconds ts) (\<lambda>time_in_seconds.
             case time_in_seconds of
               None \<Rightarrow> Inr url
             | Some t \<Rightarrow>
                 ebind (py_in ''?'' url) (\<lambda>has_query.
                   if has_query then str_add url (''&t='' @ str_of_int t @ ''s'')
                   else str_add url (''?t='' @ str_of_int t @ ''s'')))
      else Inr url)"

definition build_citation :: "answer_section \<Rightarrow> pydict" where
  "build_citation sec =
     (if source_title sec \<noteq> PNone then [(''Title'', source_title sec)] else []) @
     (if source_publish_date sec \<noteq> PNone then [(''Published'', source_publish_date sec)] else []) @
     (if source_url sec \<noteq> PNone then [(''URL'', source_url sec)] else []) @
     (if source_timestamp sec \<noteq> PNone then [(''Video timestamp'', source_timestamp sec)] else []) @
     (if source_name sec \<noteq> PNone then [(''Name'', source_name sec)] else []) @
     (if source_page_number sec \<noteq> PNone then [(''Page Number'', source_page_number sec)] else [])"

definition gen_responses ::
  "string list \<Rightarrow> doc_columns \<Rightarrow> nat \<Rightarrow> exn + (pyval \<times> pydict)" where
  "gen_responses generated_responses cols i =
     ebind (index_or_none (map PStr generated_responses) i) (\<lambda>resp.
     ebind (index_or_none (generated_titles cols) i) (\<lambda>title.
     ebind (if i < length (generated_sources cols)
            then ebind (py_index (generated_sources cols) i) py_basename
            else Inr PNone) (\<lambda>name.
     ebind (index_or_none (page_numbers cols) i) (\<lambda>page.
     ebind (index_or_none (publish_dates cols) i) (\<lambda>published.
     ebind (index_or_none (timestamps cols) i) (\<lambda>ts.
     ebind (index_or_none (urls cols) i) (\<lambda>url.
     ebind (augment_url url ts) (\<lambda>url'.
       let sec = \<lparr>response = resp, source_title = title, source_name = name,
                  source_page_number = page, source_publish_date = published,
                  source_timestamp = ts, source_url = url'\<rparr>
       in Inr (response sec, build_citation sec)))))))))"

text \<open>
  The loop \<open>for i in range(num_responses)\<close>, with the two result lists passed along; an
  exception raised by \<open>gen_responses\<close> ends it.
\<close>

fun collect ::
  "string list \<Rightarrow> doc_columns \<Rightarrow> nat list \<Rightarrow> pydict list \<times> pydict list \<Rightarrow>
   exn + (pydict list \<times> pydict list)" where
  "collect generated_responses cols [] acc = Inr acc"
| "collect generated_responses cols (i # rest) acc =
     ebind (gen_responses generated_responses cols i) (\<lambda>(resp, citation).
       collect generated_responses cols rest
         (if truthy resp then fst acc @ [[(''response'', resp)]] else fst acc,
          if citation \<noteq> [] then snd acc @ [citation] else snd acc))"

definition paragraph_sep :: string where
  "paragraph_sep = [CHR 0x0A, CHR 0x0A]"

text \<open>
  \<open>process_responses_llm\<close>, up to the serialisation of the card by \<open>json.dumps\<close>. The tag
  \<open>RESPONSE_TYPE_DEPTH\<close> comes from a module outside these sources and is a parameter;
  \<open>docs\<close> is \<open>None\<close> when the argument is left out.
\<close>

definition process_responses_llm ::
  "string \<Rightarrow> string \<Rightarrow> document list option \<Rightarrow> exn + response_card" where
  "process_responses_llm response_type_depth responses_llm docs =
     (let generated_responses = str_split paragraph_sep responses_llm
      in case docs of
           Some (d # ds) \<Rightarrow>
             ebind (build_columns (d # ds)) (\<lambda>cols.
             ebind (collect generated_responses cols [0 ..< length generated_responses] ([], []))
               (\<lambda>(rs, cs). Inr \<lparr>card_type = response_type_depth, responses = rs, citations = cs\<rparr>))
         | _ \<Rightarrow>
             (if generated_responses \<noteq> []
              then ebind (py_index generated_responses 0) (\<lambda>r.
                     Inr \<lparr>card_type = response_type_depth,
                          responses = [[(''response'', PStr r)]], citations = []\<rparr>)
              else Inr \<lparr>card_type = response_type_depth, responses = [], citations = []\<rparr>))"

text \<open>
  A computation returns when it raises nothing. The metadata of a document parses when
  the two steps of \<open>gen_responses\<close> that can raise, the base name of the source and the
  offset appended to the URL, return on its fields.
\<close>

definition returns :: "exn + 'a \<Rightarrow> bool" where
  "returns r = (case r of Inl e \<Rightarrow> False | Inr x \<Rightarrow> True)"

definition metadata_parses :: "document \<Rightarrow> bool" where
  "metadata_parses doc =
     (returns (py_basename (dict_get (metadata doc) ''source'' (PStr ''source not available''))) \<and>
      returns (augment_url (dict_get (metadata doc) ''url'' (PStr ''url not available''))
                 (dict_get (metadata doc) ''timestamp'' (PStr timestamp_not_available))))"

section \<open>Retrieval in the in-depth pipeline\<close>

text \<open>
  A call \<open>db.similarity_search_with_score(q, k=n)\<close> is recorded as the store, the query
  and the top-k argument. Each entry of \<open>retrieval_chains\<close> is the runnable of one store,
  and \<open>RunnableParallel.invoke\<close> runs each runnable once on the query.
\<close>

record 'db search_call =
  call_store :: 'db
  call_query :: string
  call_k :: int

definition retriever_names :: "string list" where
  "retriever_names = [''fc'', ''cj'', ''pdf'', ''pc'', ''news'']"

definition retrieval_chains ::
  "'db \<Rightarrow> 'db \<Rightarrow> 'db \<Rightarrow> 'db \<Rightarrow> 'db \<Rightarrow> int \<Rightarrow> (string \<times> (string \<Rightarrow> 'db search_call)) list" where
  "retrieval_chains db_fc db_cj db_pdf db_pc db_news k =
     map (\<lambda>(name, db). (name, \<lambda>q. \<lparr>call_store = db, call_query = q, call_k = 5\<rparr>))
       (zip retriever_names [db_fc, db_cj, db_pdf, db_pc, db_news])"

definition invoke_parallel :: "(string \<times> (string \<Rightarrow> 'r)) list \<Rightarrow> string \<Rightarrow> (string \<times> 'r) list" where
  "invoke_parallel steps q = map (\<lambda>(name, run). (name, run q)) steps"

text \<open>The searches that \<open>get_indepth_response_from_query\<close> issues, by retriever name.\<close>

definition get_indepth_searches ::
  "'db \<Rightarrow> 'db \<Rightarrow> 'db \<Rightarrow> 'db \<Rightarrow> 'db \<Rightarrow> string \<Rightarrow> int \<Rightarrow> (string \<times> 'db search_call) list" where
  "get_indepth_searches db_fc db_cj db_pdf db_pc db_news query k =
     invoke_parallel (retrieval_chains db_fc db_cj db_pdf db_pc db_news k) query"

text \<open>
  \<open>route_question\<close>, as far as retrieval goes: the in-depth route passes its \<open>k\<close> on, any
  other query type raises ValueError.
\<close>

definition route_question_searches ::
  "string \<Rightarrow> 'db \<Rightarrow> 'db \<Rightarrow> 'db \<Rightarrow> 'db \<Rightarrow> 'db \<Rightarrow> string \<Rightarrow> string \<Rightarrow> int \<Rightarrow>
   exn + (string \<times> 'db search_call) list" where
  "route_question_searches response_type_depth db_fc db_cj db_pdf db_pc db_news query query_type k =
     (if query_type = response_type_depth
      then Inr (get_indepth_searches db_fc db_cj db_pdf db_pc db_news query k)
      else Inl ValueError)"

section \<open>Facts about the library models\<close>

lemma ebind_Inl [simp]: "ebind (Inl e) f = Inl e"
  by (simp add: ebind_def)

lemma ebind_Inr [simp]: "ebind (Inr x) f = f x"
  by (simp add: ebind_def)

lemma ebind_eq_Inr: "ebind m f = Inr y \<longleftrightarrow> (\<exists>x. m = Inr x \<and> f x = Inr y)"
  by (cases m) simp_all

lemma ebind_eq_Inl: "ebind m f = Inl e \<longleftrightarrow> m = Inl e \<or> (\<exists>x. m = Inr x \<and> f x = Inl e)"
  by (cases m) simp_all

lemma split_from_not_Nil: "split_from sep cur s \<noteq> []"
  by (induction sep cur s rule: split_from.induct) auto

lemma str_split_not_Nil: "str_split sep s \<noteq> []"
  by (simp add: str_split_def split_from_not_Nil)

lemma split_from_char_none:
  "c \<notin> set x \<Longrightarrow> split_from [c] cur x = [rev cur @ x]"
  by (induction x arbitrary: cur) auto

lemma split_from_char_first:
  "c \<notin> set x \<Longrightarrow> split_from [c] cur (x @ c # rest) = (rev cur @ x) # split_from [c] [] rest"
  by (induction x arbitrary: cur) auto

lemma str_split_char_none: "c \<notin> set x \<Longrightarrow> str_split [c] x = [x]"
  by (simp add: str_split_def split_from_char_none)

lemma str_split_char_first:
  "c \<notin> set x \<Longrightarrow> str_split [c] (x @ c # rest) = x # str_split [c] rest"
  by (simp add: str_split_def split_from_char_first)

lemma py_int_str_error: "py_int_str s = Inl e \<Longrightarrow> e = ValueError"
  by (auto simp: py_int_str_def Let_def split: option.splits if_splits prod.splits)

lemma emap_error:
  "(\<And>x e. f x = Inl e \<Longrightarrow> e = err) \<Longrightarrow> emap f xs = Inl e \<Longrightarrow> e = err"
  by (induction xs arbitrary: e) (auto simp: ebind_eq_Inl)

lemma emap_length: "emap f xs = Inr ys \<Longrightarrow> length ys = length xs"
  by (induction xs arbitrary: ys) (auto simp: ebind_eq_Inr)

lemma emap_nth: "emap f xs = Inr ys \<Longrightarrow> i < length xs \<Longrightarrow> f (xs ! i) = Inr (ys ! i)"
  by (induction xs arbitrary: ys i) (auto simp: ebind_eq_Inr nth_Cons split: nat.splits)

lemma emap_total: "(\<And>x. \<exists>y. f x = Inr y) \<Longrightarrow> \<exists>ys. emap f xs = Inr ys"
proof (induction xs)
  case Nil
  show ?case by simp
next
  case (Cons x xs)
  from Cons.prems obtain y where "f x = Inr y" by blast
  moreover from Cons obtain ys where "emap f xs = Inr ys" by blast
  ultimately show ?case by simp
qed

lemma strptime_mdY_error: "strptime_mdY s = Inl e \<Longrightarrow> e = ValueError"
  by (auto simp: strptime_mdY_def ebind_eq_Inl split: list.splits if_splits dest: py_int_str_error)

lemma strptime_error: "strptime s fmt = Inl e \<Longrightarrow> e = ValueError"
  by (auto simp: strptime_def split: if_splits dest: strptime_mdY_error)

lemma strptime_unknown_directive: "strptime s ''%-m-%-d-%Y'' = Inl ValueError"
  by (simp add: strptime_def)

lemma convert_date_format_unparsed:
  "\<not> str_in ''/'' s \<Longrightarrow> \<forall>d. strptime s ''%m-%d-%Y'' \<noteq> Inr d \<Longrightarrow>
   convert_date_format (PStr s) = Inr invalid_date_format"
proof -
  assume a: "\<not> str_in ''/'' s" and b: "\<forall>d. strptime s ''%m-%d-%Y'' \<noteq> Inr d"
  from b obtain e where e: "strptime s ''%m-%d-%Y'' = Inl e"
    by (cases "strptime s ''%m-%d-%Y''") auto
  then have "e = ValueError" by (rule strptime_error)
  with a e show ?thesis
    by (simp add: convert_date_format_def strptime_unknown_directive)
qed

lemma convert_date_format_returns: "\<exists>r. convert_date_format v = Inr r"
proof (cases v)
  case (PStr s)
  show ?thesis
  proof (cases "strptime s ''%m-%d-%Y''")
    case (Inl e)
    then have "e = ValueError" by (rule strptime_error)
    with Inl PStr show ?thesis
      by (simp add: convert_date_format_def strptime_unknown_directive)
  next
    case (Inr d)
    with PStr show ?thesis by (simp add: convert_date_format_def)
  qed
qed (simp_all add: convert_date_format_def)

lemmas date_eval_defs =
  convert_date_format_def strptime_def strptime_mdY_def regex_mdY_def re_m_def re_d_def
  re_Y_def re_lit_def is_digit_def py_int_str_def strip_space_def is_space_def Let_def
  dec_value_def digit_val_def int_max_str_digits_def days_in_month_def is_leap_def
  strftime_mdY_def pad2_def str_of_int_def str_of_nat.simps digit_char_def
  invalid_date_format_def

section \<open>Date and timestamp conversion\<close>

text \<open>
  Claim C7. \<open>convert_date_format\<close> maps \<open>3-4-2024\<close> to \<open>03/04/2024\<close>, returns every
  string that contains a slash unchanged, and maps every string without a slash that
  \<open>strptime\<close> cannot parse with \<open>%m-%d-%Y\<close> (such as \<open>not-a-date\<close>) to the marker
  \<open>Invalid date format\<close>.
\<close>

theorem convert_date_format_examples:
  "convert_date_format (PStr ''3-4-2024'') = Inr ''03/04/2024'' \<and>
   convert_date_format (PStr ''03/04/2024'') = Inr ''03/04/2024'' \<and>
   convert_date_format (PStr ''not-a-date'') = Inr ''Invalid date format'' \<and>
   (\<forall>s. str_in ''/'' s \<longrightarrow> convert_date_format (PStr s) = Inr s) \<and>
   (\<forall>s. \<not> str_in ''/'' s \<and> (\<forall>d. strptime s ''%m-%d-%Y'' \<noteq> Inr d) \<longrightarrow>
        convert_date_format (PStr s) = Inr ''Invalid date format'')"
proof (intro conjI allI impI)
  show "convert_date_format (PStr ''3-4-2024'') = Inr ''03/04/2024''"
    by (simp add: date_eval_defs)
  show "convert_date_format (PStr ''03/04/2024'') = Inr ''03/04/2024''"
    by (simp add: convert_date_format_def)
  show "convert_date_format (PStr ''not-a-date'') = Inr ''Invalid date format''"
    by (simp add: date_eval_defs)
next
  fix s assume "str_in ''/'' s"
  then show "convert_date_format (PStr s) = Inr s"
    by (simp add: convert_date_format_def)
next
  fix s assume "\<not> str_in ''/'' s \<and> (\<forall>d. strptime s ''%m-%d-%Y'' \<noteq> Inr d)"
  then show "convert_date_format (PStr s) = Inr ''Invalid date format''"
    using convert_date_format_unparsed [of s] by (simp add: invalid_date_format_def)
qed

theorem convert_date_format_examples_witness:
  "str_in ''/'' ''12/25/2023'' \<and> convert_date_format (PStr ''12/25/2023'') = Inr ''12/25/2023'' \<and>
   \<not> str_in ''/'' ''2-30-2024'' \<and> (\<forall>d. strptime ''2-30-2024'' ''%m-%d-%Y'' \<noteq> Inr d) \<and>
   convert_date_format (PStr ''2-30-2024'') = Inr ''Invalid date format''"
proof -
  have a: "str_in ''/'' ''12/25/2023''" by simp
  have b: "\<not> str_in ''/'' ''2-30-2024''" by simp
  have c: "\<forall>d. strptime ''2-30-2024'' ''%m-%d-%Y'' \<noteq> Inr d"
    by (simp add: date_eval_defs)
  from a b c convert_date_format_examples show ?thesis by blast
qed

lemma timestamp_to_seconds_parts:
  assumes "\<not> str_in timestamp_not_available ts"
    and "str_split ''-'' ts = start # others"
    and "emap py_int_str (str_split '':'' start) = Inr parts"
  shows "timestamp_to_seconds (PStr ts) =
           (case parts of
              [h, m, s] \<Rightarrow> Inr (Some (h * 3600 + m * 60 + s))
            | [h, m] \<Rightarrow> Inr (Some (h * 3600 + m * 60 + 0))
            | _ \<Rightarrow> Inl ValueError)"
  using assms by (simp add: timestamp_to_seconds_def py_in_def py_index_def split: list.splits)

lemma split_range:
  assumes "CHR ''-'' \<notin> set p" and "rng = [] \<or> (\<exists>tail. rng = CHR ''-'' # tail)"
  shows "\<exists>others. str_split ''-'' (p @ rng) = p # others"
  using assms by (auto simp: str_split_char_none str_split_char_first)

text \<open>
  Claim C8. \<open>timestamp_to_seconds\<close> reads the part of the timestamp before the first
  \<open>-\<close>: three integers \<open>h:m:s\<close> give \<open>h * 3600 + m * 60 + s\<close>, two integers \<open>h:m\<close> give
  \<open>h * 3600 + m * 60\<close>, so \<open>1:02:03-1:05:00\<close> gives 3723; the sentinel
  \<open>timestamp not available\<close> gives \<open>None\<close>.
\<close>

theorem timestamp_to_seconds_offset:
  "timestamp_to_seconds (PStr ''1:02:03-1:05:00'') = Inr (Some 3723) \<and>
   timestamp_to_seconds (PStr ''timestamp not available'') = Inr None \<and>
   (\<forall>a b c h m s rng.
      (rng = [] \<or> (\<exists>tail. rng = CHR ''-'' # tail)) \<and>
      (\<forall>x \<in> {a, b, c}. CHR ''-'' \<notin> set x \<and> CHR '':'' \<notin> set x) \<and>
      py_int_str a = Inr h \<and> py_int_str b = Inr m \<and> py_int_str c = Inr s \<and>
      \<not> str_in timestamp_not_available (a @ '':'' @ b @ '':'' @ c @ rng) \<longrightarrow>
      timestamp_to_seconds (PStr (a @ '':'' @ b @ '':'' @ c @ rng)) =
        Inr (Some (h * 3600 + m * 60 + s))) \<and>
   (\<forall>a b h m rng.
      (rng = [] \<or> (\<exists>tail. rng = CHR ''-'' # tail)) \<and>
      (\<forall>x \<in> {a, b}. CHR ''-'' \<notin> set x \<and> CHR '':'' \<notin> set x) \<and>
      py_int_str a = Inr h \<and> py_int_str b = Inr m \<and>
      \<not> str_in timestamp_not_available (a @ '':'' @ b @ rng) \<longrightarrow>
      timestamp_to_seconds (PStr (a @ '':'' @ b @ rng)) = Inr (Some (h * 3600 + m * 60)))"
proof (intro conjI allI impI)
  show "timestamp_to_seconds (PStr ''1:02:03-1:05:00'') = Inr (Some 3723)"
    by code_simp
  show "timestamp_to_seconds (PStr ''timestamp not available'') = Inr None"
    by (simp add: timestamp_to_seconds_def py_in_def timestamp_not_available_def)
next
  fix a b c h m s rng
  assume H: "(rng = [] \<or> (\<exists>tail. rng = CHR ''-'' # tail)) \<and>
      (\<forall>x \<in> {a, b, c}. CHR ''-'' \<notin> set x \<and> CHR '':'' \<notin> set x) \<and>
      py_int_str a = Inr h \<and> py_int_str b = Inr m \<and> py_int_str c = Inr s \<and>
      \<not> str_in timestamp_not_available (a @ '':'' @ b @ '':'' @ c @ rng)"
  let ?p = "a @ '':'' @ b @ '':'' @ c"
  from H have "CHR ''-'' \<notin> set ?p" by simp
  with H obtain others where sp: "str_split ''-'' (?p @ rng) = ?p # others"
    using split_range [of ?p rng] by blast
  from H have "str_split '':'' ?p = [a, b, c]"
    by (simp add: str_split_char_none str_split_char_first)
  with H have "emap py_int_str (str_split '':'' ?p) = Inr [h, m, s]" by simp
  with H sp show "timestamp_to_seconds (PStr (a @ '':'' @ b @ '':'' @ c @ rng)) =
        Inr (Some (h * 3600 + m * 60 + s))"
    using timestamp_to_seconds_parts [of "?p @ rng" ?p others "[h, m, s]"] by simp
next
  fix a b h m rng
  assume H: "(rng = [] \<or> (\<exists>tail. rng = CHR ''-'' # tail)) \<and>
      (\<forall>x \<in> {a, b}. CHR ''-'' \<notin> set x \<and> CHR '':'' \<notin> set x) \<and>
      py_int_str a = Inr h \<and> py_int_str b = Inr m \<and>
      \<not> str_in timestamp_not_available (a @ '':'' @ b @ rng)"
  let ?p = "a @ '':'' @ b"
  from H have "CHR ''-'' \<notin> set ?p" by simp
  with H obtain others where sp: "str_split ''-'' (?p @ rng) = ?p # others"
    using split_range [of ?p rng] by blast
  from H have "str_split '':'' ?p = [a, b]"
    by (simp add: str_split_char_none str_split_char_first)
  with H have "emap py_int_str (str_split '':'' ?p) = Inr [h, m]" by simp
  with H sp show "timestamp_to_seconds (PStr (a @ '':'' @ b @ rng)) =
        Inr (Some (h * 3600 + m * 60))"
    using timestamp_to_seconds_parts [of "?p @ rng" ?p others "[h, m]"] by simp
qed

theorem timestamp_to_seconds_offset_witness:
  "py_int_str ''1'' = Inr 1 \<and> py_int_str ''02'' = Inr 2 \<and> py_int_str ''03'' = Inr 3 \<and>
   \<not> str_in timestamp_not_available (''1'' @ '':'' @ ''02'' @ '':'' @ ''03'' @ ''-1:05:00'') \<and>
   timestamp_to_seconds (PStr (''1'' @ '':'' @ ''02'' @ '':'' @ ''03'' @ ''-1:05:00'')) =
     Inr (Some (1 * 3600 + 2 * 60 + 3)) \<and>
   py_int_str ''12'' = Inr 12 \<and> py_int_str ''30'' = Inr 30 \<and>
   \<not> str_in timestamp_not_available (''12'' @ '':'' @ ''30'' @ []) \<and>
   timestamp_to_seconds (PStr (''12'' @ '':'' @ ''30'' @ [])) = Inr (Some (12 * 3600 + 30 * 60))"
proof -
  have i1: "py_int_str ''1'' = Inr 1" and i2: "py_int_str ''02'' = Inr 2"
    and i3: "py_int_str ''03'' = Inr 3" and i12: "py_int_str ''12'' = Inr 12"
    and i30: "py_int_str ''30'' = Inr 30"
    by (simp_all add: date_eval_defs)
  have n1: "\<not> str_in timestamp_not_available (''1'' @ '':'' @ ''02'' @ '':'' @ ''03'' @ ''-1:05:00'')"
    and n2: "\<not> str_in timestamp_not_available (''12'' @ '':'' @ ''30'' @ [])"
    by (simp_all add: timestamp_not_available_def)
  have r: "''-1:05:00'' = [] \<or> (\<exists>tail. ''-1:05:00'' = CHR ''-'' # tail)" by simp
  have c3: "\<forall>x \<in> {''1'', ''02'', ''03''}. CHR ''-'' \<notin> set x \<and> CHR '':'' \<notin> set x" by simp
  have c2: "\<forall>x \<in> {''12'', ''30''}. CHR ''-'' \<notin> set x \<and> CHR '':'' \<notin> set x" by simp
  have A: "timestamp_to_seconds (PStr (''1'' @ '':'' @ ''02'' @ '':'' @ ''03'' @ ''-1:05:00'')) =
     Inr (Some (1 * 3600 + 2 * 60 + 3))"
    by (rule timestamp_to_seconds_offset
          [THEN conjunct2, THEN conjunct2, THEN conjunct1, rule_format])
       (intro conjI r c3 i1 i2 i3 n1)
  have e: "[] = [] \<or> (\<exists>tail. [] = CHR ''-'' # tail)" by simp
  have B: "timestamp_to_seconds (PStr (''12'' @ '':'' @ ''30'' @ [])) = Inr (Some (12 * 3600 + 30 * 60))"
    by (rule timestamp_to_seconds_offset
          [THEN conjunct2, THEN conjunct2, THEN conjunct2, rule_format])
       (intro conjI e c2 i12 i30 n2)
  from i1 i2 i3 n1 A i12 i30 n2 B show ?thesis by blast
qed

section \<open>The assembler without documents\<close>

text \<open>
  Claim C6. When the documents are absent or the empty list, the card has exactly one
  section, the first paragraph of the model output, and no citations.
\<close>

theorem no_documents_one_section:
  "docs = None \<or> docs = Some [] \<Longrightarrow>
   \<exists>first others.
     str_split paragraph_sep responses_llm = first # others \<and>
     process_responses_llm rt responses_llm docs =
       Inr \<lparr>card_type = rt, responses = [[(''response'', PStr first)]], citations = []\<rparr>"
proof -
  assume d: "docs = None \<or> docs = Some []"
  obtain first others where sp: "str_split paragraph_sep responses_llm = first # others"
    using str_split_not_Nil [of paragraph_sep responses_llm]
    by (cases "str_split paragraph_sep responses_llm") auto
  from d sp have "process_responses_llm rt responses_llm docs =
       Inr \<lparr>card_type = rt, responses = [[(''response'', PStr first)]], citations = []\<rparr>"
    by (auto simp: process_responses_llm_def py_index_def)
  with sp show ?thesis by blast
qed

theorem no_documents_one_section_witness:
  "(None = (None :: document list option) \<or> None = Some ([] :: document list)) \<and>
   (\<exists>first others.
     str_split paragraph_sep (''one'' @ paragraph_sep @ ''two'') = first # others \<and>
     process_responses_llm ''depth'' (''one'' @ paragraph_sep @ ''two'') None =
       Inr \<lparr>card_type = ''depth'', responses = [[(''response'', PStr first)]], citations = []\<rparr>) \<and>
   process_responses_llm ''depth'' (''one'' @ paragraph_sep @ ''two'') (Some []) =
       Inr \<lparr>card_type = ''depth'', responses = [[(''response'', PStr ''one'')]], citations = []\<rparr>"
proof -
  have sp: "str_split paragraph_sep (''one'' @ paragraph_sep @ ''two'') = [''one'', ''two'']"
    by (simp add: str_split_def paragraph_sep_def)
  have a: "None = (None :: document list option) \<or> None = Some ([] :: document list)" by simp
  have b: "Some [] = (None :: document list option) \<or> Some [] = Some ([] :: document list)" by simp
  from no_documents_one_section [OF a, of "''one'' @ paragraph_sep @ ''two''" "''depth''"]
  have A: "\<exists>first others.
     str_split paragraph_sep (''one'' @ paragraph_sep @ ''two'') = first # others \<and>
     process_responses_llm ''depth'' (''one'' @ paragraph_sep @ ''two'') None =
       Inr \<lparr>card_type = ''depth'', responses = [[(''response'', PStr first)]], citations = []\<rparr>" .
  from no_documents_one_section [OF b, of "''one'' @ paragraph_sep @ ''two''" "''depth''"] sp
  have B: "process_responses_llm ''depth'' (''one'' @ paragraph_sep @ ''two'') (Some []) =
       Inr \<lparr>card_type = ''depth'', responses = [[(''response'', PStr ''one'')]], citations = []\<rparr>"
    by simp
  from a A B show ?thesis by blast
qed

section \<open>Retrieval\<close>

text \<open>
  Claim C4 says that each of the five stores is searched once with the \<open>k\<close> the caller
  passed. Routed with \<open>k = 20\<close>, the in-depth pipeline searches each store once, and
  each search asks for the top 5: the argument \<open>k\<close> is not used.
\<close>

theorem indepth_search_ignores_k:
  "route_question_searches ''depth'' ''db_fc'' ''db_cj'' ''db_pdf'' ''db_pc'' ''db_news''
     ''What was decided?'' ''depth'' 20 =
   Inr [(''fc'', \<lparr>call_store = ''db_fc'', call_query = ''What was decided?'', call_k = 5\<rparr>),
        (''cj'', \<lparr>call_store = ''db_cj'', call_query = ''What was decided?'', call_k = 5\<rparr>),
        (''pdf'', \<lparr>call_store = ''db_pdf'', call_query = ''What was decided?'', call_k = 5\<rparr>),
        (''pc'', \<lparr>call_store = ''db_pc'', call_query = ''What was decided?'', call_k = 5\<rparr>),
        (''news'', \<lparr>call_store = ''db_news'', call_query = ''What was decided?'', call_k = 5\<rparr>)]"
  by (simp add: route_question_searches_def get_indepth_searches_def invoke_parallel_def
      retrieval_chains_def retriever_names_def)

section \<open>Facts about the assembler\<close>

lemma build_columns_eq:
  "\<exists>dates. emap (\<lambda>doc. ebind (convert_date_format
                                  (dict_get (metadata doc) ''publish_date'' (PStr ''date not available'')))
                               (\<lambda>s. Inr (PStr s))) docs = Inr dates \<and>
     build_columns docs =
       Inr \<lparr>generated_titles =
              map (\<lambda>doc. dict_get (metadata doc) ''title''
                            (dict_get (metadata doc) ''source'' (PStr []))) docs,
            page_numbers = map (\<lambda>doc. dict_get (metadata doc) ''page_number'' PNone) docs,
            generated_sources =
              map (\<lambda>doc. dict_get (metadata doc) ''source'' (PStr ''source not available'')) docs,
            publish_dates = dates,
            timestamps =
              map (\<lambda>doc. dict_get (metadata doc) ''timestamp'' (PStr timestamp_not_available)) docs,
            urls = map (\<lambda>doc. dict_get (metadata doc) ''url'' (PStr ''url not available'')) docs\<rparr>"
proof -
  have "\<exists>dates. emap (\<lambda>doc. ebind (convert_date_format
                                  (dict_get (metadata doc) ''publish_date'' (PStr ''date not available'')))
                               (\<lambda>s. Inr (PStr s))) docs = Inr dates"
  proof (rule emap_total)
    fix doc
    obtain r where "convert_date_format
        (dict_get (metadata doc) ''publish_date'' (PStr ''date not available'')) = Inr r"
      using convert_date_format_returns by blast
    then show "\<exists>y. ebind (convert_date_format
                  (dict_get (metadata doc) ''publish_date'' (PStr ''date not available'')))
               (\<lambda>s. Inr (PStr s)) = Inr y" by simp
  qed
  then obtain dates where "emap (\<lambda>doc. ebind (convert_date_format
                                  (dict_get (metadata doc) ''publish_date'' (PStr ''date not available'')))
                               (\<lambda>s. Inr (PStr s))) docs = Inr dates" ..
  then show ?thesis by (simp add: build_columns_def)
qed

lemma build_columns_returns: "\<exists>cols. build_columns docs = Inr cols"
  using build_columns_eq [of docs] by blast

lemma build_columns_lengths:
  assumes "build_columns docs = Inr cols"
  shows "length (generated_titles cols) = length docs"
    and "length (page_numbers cols) = length docs"
    and "length (generated_sources cols) = length docs"
    and "length (publish_dates cols) = length docs"
    and "length (timestamps cols) = length docs"
    and "length (urls cols) = length docs"
proof -
  from build_columns_eq [of docs] obtain dates where
    d: "emap (\<lambda>doc. ebind (convert_date_format
                (dict_get (metadata doc) ''publish_date'' (PStr ''date not available'')))
             (\<lambda>s. Inr (PStr s))) docs = Inr dates"
    and c: "build_columns docs =
       Inr \<lparr>generated_titles =
              map (\<lambda>doc. dict_get (metadata doc) ''title''
                            (dict_get (metadata doc) ''source'' (PStr []))) docs,
            page_numbers = map (\<lambda>doc. dict_get (metadata doc) ''page_number'' PNone) docs,
            generated_sources =
              map (\<lambda>doc. dict_get (metadata doc) ''source'' (PStr ''source not available'')) docs,
            publish_dates = dates,
            timestamps =
              map (\<lambda>doc. dict_get (metadata doc) ''timestamp'' (PStr timestamp_not_available)) docs,
            urls = map (\<lambda>doc. dict_get (metadata doc) ''url'' (PStr ''url not available'')) docs\<rparr>"
    by blast
  from d have l: "length dates = length docs" by (rule emap_length)
  from c assms have cols: "cols = \<lparr>generated_titles =
              map (\<lambda>doc. dict_get (metadata doc) ''title''
                            (dict_get (metadata doc) ''source'' (PStr []))) docs,
            page_numbers = map (\<lambda>doc. dict_get (metadata doc) ''page_number'' PNone) docs,
            generated_sources =
              map (\<lambda>doc. dict_get (metadata doc) ''source'' (PStr ''source not available'')) docs,
            publish_dates = dates,
            timestamps =
              map (\<lambda>doc. dict_get (metadata doc) ''timestamp'' (PStr timestamp_not_available)) docs,
            urls = map (\<lambda>doc. dict_get (metadata doc) ''url'' (PStr ''url not available'')) docs\<rparr>"
    by simp
  show "length (generated_titles cols) = length docs" by (simp add: cols)
  show "length (page_numbers cols) = length docs" by (simp add: cols)
  show "length (generated_sources cols) = length docs" by (simp add: cols)
  show "length (publish_dates cols) = length docs" by (simp add: cols l)
  show "length (timestamps cols) = length docs" by (simp add: cols)
  show "length (urls cols) = length docs" by (simp add: cols)
qed

lemma build_columns_nth:
  assumes "build_columns docs = Inr cols" and "i < length docs"
  shows "generated_titles cols ! i =
           dict_get (metadata (docs ! i)) ''title'' (dict_get (metadata (docs ! i)) ''source'' (PStr []))"
    and "page_numbers cols ! i = dict_get (metadata (docs ! i)) ''page_number'' PNone"
    and "generated_sources cols ! i =
           dict_get (metadata (docs ! i)) ''source'' (PStr ''source not available'')"
    and "timestamps cols ! i =
           dict_get (metadata (docs ! i)) ''timestamp'' (PStr timestamp_not_available)"
    and "urls cols ! i = dict_get (metadata (docs ! i)) ''url'' (PStr ''url not available'')"
    and "\<exists>r. convert_date_format
           (dict_get (metadata (docs ! i)) ''publish_date'' (PStr ''date not available'')) = Inr r \<and>
         publish_dates cols ! i = PStr r"
proof -
  from build_columns_eq [of docs] obtain dates where
    d: "emap (\<lambda>doc. ebind (convert_date_format
                (dict_get (metadata doc) ''publish_date'' (PStr ''date not available'')))
             (\<lambda>s. Inr (PStr s))) docs = Inr dates"
    and c: "build_columns docs =
       Inr \<lparr>generated_titles =
              map (\<lambda>doc. dict_get (metadata doc) ''title''
                            (dict_get (metadata doc) ''source'' (PStr []))) docs,
            page_numbers = map (\<lambda>doc. dict_get (metadata doc) ''page_number'' PNone) docs,
            generated_sources =
              map (\<lambda>doc. dict_get (metadata doc) ''source'' (PStr ''source not available'')) docs,
            publish_dates = dates,
            timestamps =
              map (\<lambda>doc. dict_get (metadata doc) ''timestamp'' (PStr timestamp_not_available)) docs,
            urls = map (\<lambda>doc. dict_get (metadata doc) ''url'' (PStr ''url not available'')) docs\<rparr>"
    by blast
  from c assms(1) have cols: "cols = \<lparr>generated_titles =
              map (\<lambda>doc. dict_get (metadata doc) ''title''
                            (dict_get (metadata doc) ''source'' (PStr []))) docs,
            page_numbers = map (\<lambda>doc. dict_get (metadata doc) ''page_number'' PNone) docs,
            generated_sources =
              map (\<lambda>doc. dict_get (metadata doc) ''source'' (PStr ''source not available'')) docs,
            publish_dates = dates,
            timestamps =
              map (\<lambda>doc. dict_get (metadata doc) ''timestamp'' (PStr timestamp_not_available)) docs,
            urls = map (\<lambda>doc. dict_get (metadata doc) ''url'' (PStr ''url not available'')) docs\<rparr>"
    by simp
  from assms(2) show "generated_titles cols ! i =
           dict_get (metadata (docs ! i)) ''title'' (dict_get (metadata (docs ! i)) ''source'' (PStr []))"
    by (simp add: cols)
  from assms(2) show "page_numbers cols ! i = dict_get (metadata (docs ! i)) ''page_number'' PNone"
    by (simp add: cols)
  from assms(2) show "generated_sources cols ! i =
           dict_get (metadata (docs ! i)) ''source'' (PStr ''source not available'')"
    by (simp add: cols)
  from assms(2) show "timestamps cols ! i =
           dict_get (metadata (docs ! i)) ''timestamp'' (PStr timestamp_not_available)"
    by (simp add: cols)
  from assms(2) show "urls cols ! i = dict_get (metadata (docs ! i)) ''url'' (PStr ''url not available'')"
    by (simp add: cols)
  from emap_nth [OF d assms(2)]
  have e: "ebind (convert_date_format
                (dict_get (metadata (docs ! i)) ''publish_date'' (PStr ''date not available'')))
             (\<lambda>s. Inr (PStr s)) = Inr (dates ! i)" .
  then obtain r where "convert_date_format
      (dict_get (metadata (docs ! i)) ''publish_date'' (PStr ''date not available'')) = Inr r"
    and "dates ! i = PStr r"
    by (auto simp: ebind_eq_Inr)
  then show "\<exists>r. convert_date_format
           (dict_get (metadata (docs ! i)) ''publish_date'' (PStr ''date not available'')) = Inr r \<and>
         publish_dates cols ! i = PStr r"
    by (simp add: cols)
qed




lemma py_basename_Inr: "py_basename v = Inr name \<Longrightarrow> \<exists>b. name = PStr b"
  by (cases v) (auto simp: py_basename_def)

text \<open>Beyond the last document every field of the section is \<open>None\<close>.\<close>

lemma gen_responses_beyond:
  assumes "length (generated_titles cols) = n" "length (page_numbers cols) = n"
    "length (generated_sources cols) = n" "length (publish_dates cols) = n"
    "length (timestamps cols) = n" "length (urls cols) = n"
    and "n \<le> i"
  shows "gen_responses gr cols i = Inr (if i < length gr then PStr (gr ! i) else PNone, [])"
  using assms
  by (simp add: gen_responses_def index_or_none_def py_index_def augment_url_def truthy_def
      build_citation_def)

lemma gen_responses_within:
  assumes "length (generated_titles cols) = n" "length (page_numbers cols) = n"
    "length (generated_sources cols) = n" "length (publish_dates cols) = n"
    "length (timestamps cols) = n" "length (urls cols) = n"
    and "i < n"
  shows "gen_responses gr cols i =
     ebind (py_basename (generated_sources cols ! i)) (\<lambda>name.
     ebind (augment_url (urls cols ! i) (timestamps cols ! i)) (\<lambda>url'.
       Inr (if i < length gr then PStr (gr ! i) else PNone,
            build_citation
              \<lparr>response = (if i < length gr then PStr (gr ! i) else PNone),
               source_title = generated_titles cols ! i, source_name = name,
               source_page_number = page_numbers cols ! i,
               source_publish_date = publish_dates cols ! i,
               source_timestamp = timestamps cols ! i, source_url = url'\<rparr>)))"
  using assms
  by (simp add: gen_responses_def index_or_none_def py_index_def)

lemma returns_iff: "returns r \<longleftrightarrow> (\<exists>x. r = Inr x)"
  by (cases r) (simp_all add: returns_def)


lemma gen_responses_within_Inr:
  assumes "length (generated_titles cols) = n" "length (page_numbers cols) = n"
    "length (generated_sources cols) = n" "length (publish_dates cols) = n"
    "length (timestamps cols) = n" "length (urls cols) = n"
    and "i < n"
    and "gen_responses gr cols i = Inr (resp, cit)"
  shows "\<exists>name url'.
           py_basename (generated_sources cols ! i) = Inr name \<and>
           augment_url (urls cols ! i) (timestamps cols ! i) = Inr url' \<and>
           resp = (if i < length gr then PStr (gr ! i) else PNone) \<and>
           cit = build_citation
              \<lparr>response = (if i < length gr then PStr (gr ! i) else PNone),
               source_title = generated_titles cols ! i, source_name = name,
               source_page_number = page_numbers cols ! i,
               source_publish_date = publish_dates cols ! i,
               source_timestamp = timestamps cols ! i, source_url = url'\<rparr>"
proof -
  have "ebind (py_basename (generated_sources cols ! i)) (\<lambda>name.
     ebind (augment_url (urls cols ! i) (timestamps cols ! i)) (\<lambda>url'.
       Inr (if i < length gr then PStr (gr ! i) else PNone,
            build_citation
              \<lparr>response = (if i < length gr then PStr (gr ! i) else PNone),
               source_title = generated_titles cols ! i, source_name = name,
               source_page_number = page_numbers cols ! i,
               source_publish_date = publish_dates cols ! i,
               source_timestamp = timestamps cols ! i, source_url = url'\<rparr>))) = Inr (resp, cit)"
    using gen_responses_within [OF assms(1-7), of gr] assms(8) by simp
  then show ?thesis
    unfolding ebind_eq_Inr by blast
qed

lemma gen_responses_result:
  assumes "length (generated_titles cols) = n" "length (page_numbers cols) = n"
    "length (generated_sources cols) = n" "length (publish_dates cols) = n"
    "length (timestamps cols) = n" "length (urls cols) = n"
    and "gen_responses gr cols i = Inr (resp, cit)"
  shows "resp = (if i < length gr then PStr (gr ! i) else PNone)"
    and "i < n \<Longrightarrow> \<exists>b. (''Name'', PStr b) \<in> set cit"
    and "n \<le> i \<Longrightarrow> cit = []"
proof -
  show "resp = (if i < length gr then PStr (gr ! i) else PNone)"
  proof (cases "i < n")
    case True
    from gen_responses_within_Inr [OF assms(1-6) True assms(7)] show ?thesis by blast
  next
    case False
    then have "n \<le> i" by simp
    from gen_responses_beyond [OF assms(1-6) this, of gr] assms(7) show ?thesis by simp
  qed
  show "\<exists>b. (''Name'', PStr b) \<in> set cit" if "i < n"
  proof -
    from gen_responses_within_Inr [OF assms(1-6) that assms(7)]
    obtain name url' where n: "py_basename (generated_sources cols ! i) = Inr name"
      and c: "cit = build_citation
              \<lparr>response = (if i < length gr then PStr (gr ! i) else PNone),
               source_title = generated_titles cols ! i, source_name = name,
               source_page_number = page_numbers cols ! i,
               source_publish_date = publish_dates cols ! i,
               source_timestamp = timestamps cols ! i, source_url = url'\<rparr>"
      by blast
    from n obtain b where "name = PStr b" using py_basename_Inr by blast
    with c show ?thesis by (simp add: build_citation_def)
  qed
  show "cit = []" if "n \<le> i"
    using gen_responses_beyond [OF assms(1-6) that, of gr] assms(7) by simp
qed

lemma collect_result:
  assumes "length (generated_titles cols) = n" "length (page_numbers cols) = n"
    "length (generated_sources cols) = n" "length (publish_dates cols) = n"
    "length (timestamps cols) = n" "length (urls cols) = n"
    and "\<forall>i \<in> set idxs. i < length gr"
    and "collect gr cols idxs acc = Inr res"
  shows "fst res = fst acc @
           map (\<lambda>p. [(''response'', PStr p)]) (filter (\<lambda>p. p \<noteq> []) (map ((!) gr) idxs)) \<and>
         length (snd res) = length (snd acc) + length (filter (\<lambda>i. i < n) idxs) \<and>
         (\<forall>c \<in> set (snd res). c \<in> set (snd acc) \<or> (\<exists>b. (''Name'', PStr b) \<in> set c))"
  using assms(7,8)
proof (induction idxs arbitrary: acc)
  case Nil
  then show ?case by simp
next
  case (Cons i idxs)
  from Cons.prems(2) obtain resp cit where
    g: "gen_responses gr cols i = Inr (resp, cit)"
    and r: "collect gr cols idxs
         (if truthy resp then fst acc @ [[(''response'', resp)]] else fst acc,
          if cit \<noteq> [] then snd acc @ [cit] else snd acc) = Inr res"
    by (auto simp: ebind_eq_Inr)
  from Cons.prems(1) have il: "i < length gr" and rest: "\<forall>i \<in> set idxs. i < length gr"
    by simp_all
  from gen_responses_result(1) [OF assms(1-6) g] il have resp: "resp = PStr (gr ! i)" by simp
  note IH = Cons.IH [OF rest r]
  show ?case
  proof (cases "i < n")
    case True
    from gen_responses_result(2) [OF assms(1-6) g True]
    obtain b where b: "(''Name'', PStr b) \<in> set cit" by blast
    then have "cit \<noteq> []" by auto
    with IH resp True b show ?thesis
      by (auto simp: truthy_def)
  next
    case False
    then have "n \<le> i" by simp
    from gen_responses_result(3) [OF assms(1-6) g this] have "cit = []" .
    with IH resp False show ?thesis
      by (auto simp: truthy_def)
  qed
qed

lemma collect_returns_iff:
  "(\<exists>res. collect gr cols idxs acc = Inr res) \<longleftrightarrow>
   (\<forall>i \<in> set idxs. returns (gen_responses gr cols i))"
proof (induction idxs arbitrary: acc)
  case Nil
  show ?case by simp
next
  case (Cons i idxs)
  show ?case
  proof (cases "gen_responses gr cols i")
    case (Inl e)
    then show ?thesis by (simp add: returns_def)
  next
    case (Inr p)
    obtain resp cit where "p = (resp, cit)" by (cases p)
    with Inr Cons.IH show ?thesis by (simp add: returns_def)
  qed
qed


lemma filter_less_upt: "length (filter (\<lambda>i. i < n) [0 ..< m]) = min m n"
  by (induction m) auto

lemma process_with_documents:
  assumes "docs \<noteq> []" and "build_columns docs = Inr cols"
  shows "process_responses_llm rt out (Some docs) =
     ebind (collect (str_split paragraph_sep out) cols
              [0 ..< length (str_split paragraph_sep out)] ([], []))
       (\<lambda>(rs, cs). Inr \<lparr>card_type = rt, responses = rs, citations = cs\<rparr>)"
  using assms by (cases docs) (simp_all add: process_responses_llm_def Let_def)

lemma process_card:
  assumes "docs \<noteq> []" and "process_responses_llm rt out (Some docs) = Inr crd"
  shows "card_type crd = rt"
    and "responses crd =
           map (\<lambda>p. [(''response'', PStr p)])
             (filter (\<lambda>p. p \<noteq> []) (str_split paragraph_sep out))"
    and "length (citations crd) = min (length (str_split paragraph_sep out)) (length docs)"
    and "\<forall>c \<in> set (citations crd). \<exists>b. (''Name'', PStr b) \<in> set c"
proof -
  let ?gr = "str_split paragraph_sep out"
  obtain cols where cols: "build_columns docs = Inr cols"
    using build_columns_returns by blast
  note lens = build_columns_lengths [OF cols]
  from process_with_documents [OF assms(1) cols, of rt out] assms(2)
  have "ebind (collect ?gr cols [0 ..< length ?gr] ([], []))
       (\<lambda>(rs, cs). Inr \<lparr>card_type = rt, responses = rs, citations = cs\<rparr>) = Inr crd"
    by simp
  then obtain res where c: "collect ?gr cols [0 ..< length ?gr] ([], []) = Inr res"
    and crd_eq: "crd = \<lparr>card_type = rt, responses = fst res, citations = snd res\<rparr>"
    by (auto simp: ebind_eq_Inr)
  have "\<forall>i \<in> set [0 ..< length ?gr]. i < length ?gr" by simp
  from collect_result [OF lens this c]
  have r: "fst res = map (\<lambda>p. [(''response'', PStr p)])
              (filter (\<lambda>p. p \<noteq> []) (map ((!) ?gr) [0 ..< length ?gr]))"
    and l: "length (snd res) = length (filter (\<lambda>i. i < length docs) [0 ..< length ?gr])"
    and n: "\<forall>c \<in> set (snd res). \<exists>b. (''Name'', PStr b) \<in> set c"
    by simp_all
  show "card_type crd = rt" by (simp add: crd_eq)
  from r show "responses crd =
           map (\<lambda>p. [(''response'', PStr p)]) (filter (\<lambda>p. p \<noteq> []) ?gr)"
    by (simp add: crd_eq map_nth)
  from l show "length (citations crd) = min (length ?gr) (length docs)"
    by (simp add: crd_eq filter_less_upt)
  from n show "\<forall>c \<in> set (citations crd). \<exists>b. (''Name'', PStr b) \<in> set c"
    by (simp add: crd_eq)
qed

lemma gen_responses_returns_within:
  assumes "build_columns docs = Inr cols" and "i < length docs"
  shows "returns (gen_responses gr cols i) \<longleftrightarrow> metadata_parses (docs ! i)"
proof -
  note lens = build_columns_lengths [OF assms(1)]
  note nth = build_columns_nth [OF assms]
  have "returns (gen_responses gr cols i) \<longleftrightarrow>
        returns (py_basename (generated_sources cols ! i)) \<and>
        returns (augment_url (urls cols ! i) (timestamps cols ! i))"
    unfolding gen_responses_within [OF lens assms(2)] returns_iff ebind_eq_Inr by blast
  then show ?thesis
    by (simp add: metadata_parses_def nth(3,4,5))
qed

lemma gen_responses_returns_beyond:
  assumes "build_columns docs = Inr cols" and "length docs \<le> i"
  shows "returns (gen_responses gr cols i)"
  using gen_responses_beyond [OF build_columns_lengths [OF assms(1)] assms(2), of gr]
  by (simp add: returns_def)

lemma process_returns_iff:
  assumes "docs \<noteq> []"
  shows "returns (process_responses_llm rt out (Some docs)) \<longleftrightarrow>
         (\<forall>i < min (length (str_split paragraph_sep out)) (length docs). metadata_parses (docs ! i))"
proof -
  let ?gr = "str_split paragraph_sep out"
  obtain cols where cols: "build_columns docs = Inr cols"
    using build_columns_returns by blast
  have "returns (process_responses_llm rt out (Some docs)) \<longleftrightarrow>
        (\<exists>res. collect ?gr cols [0 ..< length ?gr] ([], []) = Inr res)"
    unfolding process_with_documents [OF assms cols] returns_iff ebind_eq_Inr
    by (auto split: prod.splits)
  also have "\<dots> \<longleftrightarrow> (\<forall>i \<in> set [0 ..< length ?gr]. returns (gen_responses ?gr cols i))"
    by (rule collect_returns_iff)
  also have "\<dots> \<longleftrightarrow> (\<forall>i < min (length ?gr) (length docs). metadata_parses (docs ! i))"
  proof
    assume a: "\<forall>i \<in> set [0 ..< length ?gr]. returns (gen_responses ?gr cols i)"
    show "\<forall>i < min (length ?gr) (length docs). metadata_parses (docs ! i)"
    proof (intro allI impI)
      fix i assume i: "i < min (length ?gr) (length docs)"
      then have "returns (gen_responses ?gr cols i)" using a by simp
      with i show "metadata_parses (docs ! i)"
        using gen_responses_returns_within [OF cols, of i ?gr] by simp
    qed
  next
    assume a: "\<forall>i < min (length ?gr) (length docs). metadata_parses (docs ! i)"
    show "\<forall>i \<in> set [0 ..< length ?gr]. returns (gen_responses ?gr cols i)"
    proof
      fix i assume "i \<in> set [0 ..< length ?gr]"
      then have i: "i < length ?gr" by simp
      show "returns (gen_responses ?gr cols i)"
      proof (cases "i < length docs")
        case True
        with i a have "metadata_parses (docs ! i)" by simp
        with True show ?thesis using gen_responses_returns_within [OF cols, of i ?gr] by simp
      next
        case False
        then show ?thesis using gen_responses_returns_beyond [OF cols, of i ?gr] by simp
      qed
    qed
  qed
  finally show ?thesis .
qed


lemma augment_url_unavailable:
  "augment_url url (PStr timestamp_not_available) = Inr url"
  by (simp add: augment_url_def timestamp_to_seconds_def py_in_def timestamp_not_available_def)

lemma basename_source_not_available:
  "py_basename (PStr ''source not available'') = Inr (PStr ''source not available'')"
  by (simp add: py_basename_def basename_def)

lemma metadata_parses_empty:
  "metadata_parses \<lparr>page_content = c, metadata = Map.empty\<rparr>"
  by (simp add: metadata_parses_def dict_get_def basename_source_not_available
      augment_url_unavailable returns_def)

lemma emap_returns_iff:
  "(\<exists>ys. emap f xs = Inr ys) \<longleftrightarrow> (\<forall>x \<in> set xs. returns (f x))"
proof (induction xs)
  case Nil
  show ?case by simp
next
  case (Cons x xs)
  show ?case
  proof (cases "f x")
    case (Inl e)
    then show ?thesis by (simp add: returns_def)
  next
    case (Inr y)
    with Cons.IH show ?thesis
      by (cases "emap f xs") (auto simp: returns_def)
  qed
qed

lemma timestamp_to_seconds_raises_iff:
  assumes "\<not> str_in timestamp_not_available ts"
    and "str_split ''-'' ts = start # others"
  shows "timestamp_to_seconds (PStr ts) = Inl ValueError \<longleftrightarrow>
         \<not> ((\<forall>p \<in> set (str_split '':'' start). returns (py_int_str p)) \<and>
            (length (str_split '':'' start) = 2 \<or> length (str_split '':'' start) = 3))"
proof (cases "emap py_int_str (str_split '':'' start)")
  case (Inl e')
  then have "e' = ValueError" by (rule emap_error [rotated]) (rule py_int_str_error)
  with Inl assms have "timestamp_to_seconds (PStr ts) = Inl ValueError"
    by (simp add: timestamp_to_seconds_def py_in_def py_index_def)
  moreover from Inl have "\<not> (\<forall>p \<in> set (str_split '':'' start). returns (py_int_str p))"
    using emap_returns_iff [of py_int_str "str_split '':'' start"] by simp
  ultimately show ?thesis by blast
next
  case (Inr parts)
  then have all: "\<forall>p \<in> set (str_split '':'' start). returns (py_int_str p)"
    using emap_returns_iff [of py_int_str "str_split '':'' start"] by blast
  from emap_length [OF Inr] have len: "length parts = length (str_split '':'' start)" .
  have "(case parts of
           [h, m, s] \<Rightarrow> Inr (Some (h * 3600 + m * 60 + s))
         | [h, m] \<Rightarrow> Inr (Some (h * 3600 + m * 60 + 0))
         | _ \<Rightarrow> Inl ValueError) = Inl ValueError \<longleftrightarrow>
        \<not> (length parts = 2 \<or> length parts = 3)"
    by (auto split: list.splits)
  with timestamp_to_seconds_parts [OF assms Inr] all len show ?thesis
    by (simp only:) blast
qed





lemma collect_raises:
  assumes "\<forall>j \<in> set pre. returns (gen_responses gr cols j)"
    and "gen_responses gr cols i = Inl e"
  shows "collect gr cols (pre @ i # post) acc = Inl e"
  using assms(1)
proof (induction pre arbitrary: acc)
  case Nil
  from assms(2) show ?case by simp
next
  case (Cons j pre)
  then obtain p where "gen_responses gr cols j = Inr p" by (auto simp: returns_iff)
  moreover obtain resp cit where "p = (resp, cit)" by (cases p)
  ultimately show ?case using Cons by simp
qed

lemma process_raises:
  assumes "docs \<noteq> []"
    and "i < length docs" and "i < length (str_split paragraph_sep out)"
    and "\<forall>j < i. metadata_parses (docs ! j)"
    and "returns (py_basename
           (dict_get (metadata (docs ! i)) ''source'' (PStr ''source not available'')))"
    and "augment_url (dict_get (metadata (docs ! i)) ''url'' (PStr ''url not available''))
           (dict_get (metadata (docs ! i)) ''timestamp'' (PStr timestamp_not_available)) = Inl e"
  shows "process_responses_llm rt out (Some docs) = Inl e"
proof -
  let ?gr = "str_split paragraph_sep out"
  obtain cols where cols: "build_columns docs = Inr cols"
    using build_columns_returns by blast
  note lens = build_columns_lengths [OF cols]
  note nth = build_columns_nth [OF cols assms(2)]
  from assms(5) nth(3) obtain name where
    name: "py_basename (generated_sources cols ! i) = Inr name"
    by (auto simp: returns_iff)
  from assms(6) nth(4,5) have
    aug: "augment_url (urls cols ! i) (timestamps cols ! i) = Inl e" by simp
  have g: "gen_responses ?gr cols i = Inl e"
    unfolding gen_responses_within [OF lens assms(2)] name aug by simp
  have pre: "\<forall>j \<in> set [0 ..< i]. returns (gen_responses ?gr cols j)"
  proof
    fix j assume "j \<in> set [0 ..< i]"
    then have j: "j < i" by simp
    with assms(2) have "j < length docs" by simp
    from gen_responses_returns_within [OF cols this, of ?gr] assms(4) j
    show "returns (gen_responses ?gr cols j)" by simp
  qed
  from assms(3) have "[0 ..< length ?gr] = [0 ..< i] @ i # [Suc i ..< length ?gr]"
    by (metis upt_conv_Cons upt_add_eq_append le_add_diff_inverse less_imp_le zero_le)
  with collect_raises [OF pre g, of "[Suc i ..< length ?gr]" "([], [])"]
  have "collect ?gr cols [0 ..< length ?gr] ([], []) = Inl e" by simp
  then show ?thesis
    unfolding process_with_documents [OF assms(1) cols] by simp
qed

section \<open>Paragraphs beyond the documents\<close>

lemma one_document_two_paragraphs:
  "process_responses_llm ''depth'' (''first'' @ paragraph_sep @ ''second'')
     (Some [\<lparr>page_content = ''minutes'', metadata = Map.empty\<rparr>]) =
   Inr \<lparr>card_type = ''depth'',
        responses = [[(''response'', PStr ''first'')], [(''response'', PStr ''second'')]],
        citations = [[(''Title'', PStr []),
                      (''Published'', PStr ''Invalid date format''),
                      (''URL'', PStr ''url not available''),
                      (''Video timestamp'', PStr ''timestamp not available''),
                      (''Name'', PStr ''source not available'')]]\<rparr>"
  by code_simp

lemma split_first_second:
  "str_split paragraph_sep (''first'' @ paragraph_sep @ ''second'') = [''first'', ''second'']"
  by (simp add: str_split_def paragraph_sep_def)

text \<open>
  Claim C1 says that a paragraph whose index is at or beyond the number of documents
  gives no section. With one document and the two paragraphs \<open>first\<close> and \<open>second\<close>, the
  card has both sections.
\<close>

theorem excess_paragraphs_counterexample:
  "process_responses_llm ''depth'' (''first'' @ paragraph_sep @ ''second'')
     (Some [\<lparr>page_content = ''minutes'', metadata = Map.empty\<rparr>]) =
   Inr \<lparr>card_type = ''depth'',
        responses = [[(''response'', PStr ''first'')], [(''response'', PStr ''second'')]],
        citations = [[(''Title'', PStr []),
                      (''Published'', PStr ''Invalid date format''),
                      (''URL'', PStr ''url not available''),
                      (''Video timestamp'', PStr ''timestamp not available''),
                      (''Name'', PStr ''source not available'')]]\<rparr>"
  by (rule one_document_two_paragraphs)

text \<open>
  Claim C1, amended. When the model output has more paragraphs than there are documents,
  every non-empty paragraph still gives a section, in order; the paragraphs beyond the
  documents give no citation, so the card has as many citations as documents.
\<close>

theorem excess_paragraphs_kept:
  assumes "docs \<noteq> []"
    and "length docs < length (str_split paragraph_sep out)"
    and "process_responses_llm rt out (Some docs) = Inr crd"
  shows "responses crd =
           map (\<lambda>p. [(''response'', PStr p)])
             (filter (\<lambda>p. p \<noteq> []) (str_split paragraph_sep out)) \<and>
         length (citations crd) = length docs"
  using process_card(2,3) [OF assms(1,3)] assms(2) by simp

theorem excess_paragraphs_kept_witness:
  "[\<lparr>page_content = ''minutes'', metadata = Map.empty\<rparr>] \<noteq> [] \<and>
   length [\<lparr>page_content = ''minutes'', metadata = Map.empty\<rparr>] <
     length (str_split paragraph_sep (''first'' @ paragraph_sep @ ''second'')) \<and>
   responses \<lparr>card_type = ''depth'',
        responses = [[(''response'', PStr ''first'')], [(''response'', PStr ''second'')]],
        citations = [[(''Title'', PStr []),
                      (''Published'', PStr ''Invalid date format''),
                      (''URL'', PStr ''url not available''),
                      (''Video timestamp'', PStr ''timestamp not available''),
                      (''Name'', PStr ''source not available'')]]\<rparr> =
     map (\<lambda>p. [(''response'', PStr p)])
       (filter (\<lambda>p. p \<noteq> []) (str_split paragraph_sep (''first'' @ paragraph_sep @ ''second''))) \<and>
   length (citations \<lparr>card_type = ''depth'',
        responses = [[(''response'', PStr ''first'')], [(''response'', PStr ''second'')]],
        citations = [[(''Title'', PStr []),
                      (''Published'', PStr ''Invalid date format''),
                      (''URL'', PStr ''url not available''),
                      (''Video timestamp'', PStr ''timestamp not available''),
                      (''Name'', PStr ''source not available'')]]\<rparr>) =
     length [\<lparr>page_content = ''minutes'', metadata = Map.empty\<rparr>]"
proof -
  have a: "[\<lparr>page_content = ''minutes'', metadata = Map.empty\<rparr>] \<noteq> []" by simp
  have b: "length [\<lparr>page_content = ''minutes'', metadata = Map.empty\<rparr>] <
     length (str_split paragraph_sep (''first'' @ paragraph_sep @ ''second''))"
    unfolding split_first_second by simp
  from excess_paragraphs_kept [OF a b one_document_two_paragraphs] a b
  show ?thesis by blast
qed

section \<open>Exceptions of the metadata parsers\<close>

lemma timestamp_to_seconds_str_error:
  "timestamp_to_seconds (PStr ts) = Inl e \<Longrightarrow> e = ValueError"
proof -
  assume a: "timestamp_to_seconds (PStr ts) = Inl e"
  obtain start others where sp: "str_split ''-'' ts = start # others"
    using str_split_not_Nil [of "''-''" ts] by (cases "str_split ''-'' ts") auto
  show "e = ValueError"
  proof (cases "emap py_int_str (str_split '':'' start)")
    case (Inl e')
    then have "e' = ValueError" by (rule emap_error [rotated]) (rule py_int_str_error)
    with Inl sp a show ?thesis
      by (simp add: timestamp_to_seconds_def py_in_def py_index_def split: if_splits)
  next
    case (Inr parts)
    with sp a show ?thesis
      by (simp add: timestamp_to_seconds_def py_in_def py_index_def split: if_splits list.splits)
  qed
qed

lemma bad_timestamp_document:
  "process_responses_llm ''depth'' ''answer''
     (Some [\<lparr>page_content = ''minutes'',
             metadata = [''url'' \<mapsto> PStr ''https://example.org/v'',
                         ''timestamp'' \<mapsto> PStr ''abc'']\<rparr>]) = Inl ValueError"
  by code_simp

text \<open>
  Claim C2 says that no timestamp string makes the parsing functions raise. The
  timestamp \<open>abc\<close> makes \<open>timestamp_to_seconds\<close> raise ValueError, and the assembler with it.
\<close>

theorem timestamp_parsing_counterexample:
  "timestamp_to_seconds (PStr ''abc'') = Inl ValueError \<and>
   process_responses_llm ''depth'' ''answer''
     (Some [\<lparr>page_content = ''minutes'',
             metadata = [''url'' \<mapsto> PStr ''https://example.org/v'',
                         ''timestamp'' \<mapsto> PStr ''abc'']\<rparr>]) = Inl ValueError"
proof
  show "timestamp_to_seconds (PStr ''abc'') = Inl ValueError" by code_simp
  show "process_responses_llm ''depth'' ''answer''
     (Some [\<lparr>page_content = ''minutes'',
             metadata = [''url'' \<mapsto> PStr ''https://example.org/v'',
                         ''timestamp'' \<mapsto> PStr ''abc'']\<rparr>]) = Inl ValueError"
    by (rule bad_timestamp_document)
qed

text \<open>
  Claim C2, amended. \<open>convert_date_format\<close> never raises, whatever value it is given.
  \<open>timestamp_to_seconds\<close> returns \<open>None\<close> for a string that contains the sentinel. For
  any other string it raises ValueError exactly when the part before the first \<open>-\<close> does
  not split at \<open>:\<close> into two or three pieces that \<open>int\<close> accepts, and it raises no other
  exception. The exception is not caught: when the document at an index below the number
  of paragraphs has a truthy URL and such a timestamp, the assembler returns no card, and
  it raises this ValueError when the metadata of the earlier documents parses and the
  source of the document is a string.
\<close>

theorem metadata_parsing_errors:
  "(\<exists>r. convert_date_format v = Inr r) \<and>
   (str_in timestamp_not_available ts \<longrightarrow> timestamp_to_seconds (PStr ts) = Inr None) \<and>
   (\<not> str_in timestamp_not_available ts \<and> str_split ''-'' ts = start # others \<longrightarrow>
      (timestamp_to_seconds (PStr ts) = Inl ValueError \<longleftrightarrow>
       \<not> ((\<forall>p \<in> set (str_split '':'' start). returns (py_int_str p)) \<and>
          (length (str_split '':'' start) = 2 \<or> length (str_split '':'' start) = 3)))) \<and>
   (\<forall>e. timestamp_to_seconds (PStr ts) = Inl e \<longrightarrow> e = ValueError) \<and>
   (docs \<noteq> [] \<and> i < length docs \<and> i < length (str_split paragraph_sep out) \<and>
    truthy (dict_get (metadata (docs ! i)) ''url'' (PStr ''url not available'')) \<and>
    dict_get (metadata (docs ! i)) ''timestamp'' (PStr timestamp_not_available) = PStr ts \<and>
    ts \<noteq> [] \<and> timestamp_to_seconds (PStr ts) = Inl ValueError \<longrightarrow>
      \<not> returns (process_responses_llm rt out (Some docs)) \<and>
      ((\<forall>j < i. metadata_parses (docs ! j)) \<and>
       returns (py_basename
         (dict_get (metadata (docs ! i)) ''source'' (PStr ''source not available''))) \<longrightarrow>
       process_responses_llm rt out (Some docs) = Inl ValueError))"
proof (intro conjI impI allI)
  show "\<exists>r. convert_date_format v = Inr r" by (rule convert_date_format_returns)
  show "timestamp_to_seconds (PStr ts) = Inr None" if "str_in timestamp_not_available ts"
    using that by (simp add: timestamp_to_seconds_def py_in_def)
  show "timestamp_to_seconds (PStr ts) = Inl ValueError \<longleftrightarrow>
       \<not> ((\<forall>p \<in> set (str_split '':'' start). returns (py_int_str p)) \<and>
          (length (str_split '':'' start) = 2 \<or> length (str_split '':'' start) = 3))"
    if "\<not> str_in timestamp_not_available ts \<and> str_split ''-'' ts = start # others"
    using that timestamp_to_seconds_raises_iff [of ts start others] by blast
  show "e = ValueError" if "timestamp_to_seconds (PStr ts) = Inl e" for e
    using that by (rule timestamp_to_seconds_str_error)
next
  assume a: "docs \<noteq> [] \<and> i < length docs \<and> i < length (str_split paragraph_sep out) \<and>
    truthy (dict_get (metadata (docs ! i)) ''url'' (PStr ''url not available'')) \<and>
    dict_get (metadata (docs ! i)) ''timestamp'' (PStr timestamp_not_available) = PStr ts \<and>
    ts \<noteq> [] \<and> timestamp_to_seconds (PStr ts) = Inl ValueError"
  then have aug: "augment_url (dict_get (metadata (docs ! i)) ''url'' (PStr ''url not available''))
           (dict_get (metadata (docs ! i)) ''timestamp'' (PStr timestamp_not_available)) =
         Inl ValueError"
    by (simp add: augment_url_def truthy_def)
  then have "\<not> metadata_parses (docs ! i)"
    by (simp add: metadata_parses_def returns_def)
  moreover from a have "i < min (length (str_split paragraph_sep out)) (length docs)" by simp
  ultimately show "\<not> returns (process_responses_llm rt out (Some docs))"
    using a process_returns_iff [of docs rt out] by blast
  show "process_responses_llm rt out (Some docs) = Inl ValueError"
    if "(\<forall>j < i. metadata_parses (docs ! j)) \<and>
       returns (py_basename
         (dict_get (metadata (docs ! i)) ''source'' (PStr ''source not available'')))"
    using a that aug process_raises [of docs i out ValueError rt] by blast
qed

theorem metadata_parsing_errors_witness:
  "(\<exists>r. convert_date_format (PStr ''not-a-date'') = Inr r) \<and>
   timestamp_to_seconds (PStr ''timestamp not available'') = Inr None \<and>
   timestamp_to_seconds (PStr ''abc-def'') = Inl ValueError \<and>
   str_split '':'' ''1:xx'' = [''1'', ''xx''] \<and>
   timestamp_to_seconds (PStr ''1:xx'') = Inl ValueError \<and>
   \<not> returns (process_responses_llm ''depth'' (''first'' @ paragraph_sep @ ''second'')
     (Some [\<lparr>page_content = ''one'', metadata = Map.empty\<rparr>,
            \<lparr>page_content = ''two'',
             metadata = [''url'' \<mapsto> PStr ''https://example.org/v'',
                         ''timestamp'' \<mapsto> PStr ''1:xx'']\<rparr>])) \<and>
   process_responses_llm ''depth'' (''first'' @ paragraph_sep @ ''second'')
     (Some [\<lparr>page_content = ''one'', metadata = Map.empty\<rparr>,
            \<lparr>page_content = ''two'',
             metadata = [''url'' \<mapsto> PStr ''https://example.org/v'',
                         ''timestamp'' \<mapsto> PStr ''1:xx'']\<rparr>]) = Inl ValueError"
proof -
  let ?docs = "[\<lparr>page_content = ''one'', metadata = Map.empty\<rparr>,
            \<lparr>page_content = ''two'',
             metadata = [''url'' \<mapsto> PStr ''https://example.org/v'',
                         ''timestamp'' \<mapsto> PStr ''1:xx'']\<rparr>]"
  let ?out = "''first'' @ paragraph_sep @ ''second''"
  have a: "str_in timestamp_not_available ''timestamp not available''"
    by (simp add: timestamp_not_available_def)
  have b: "\<not> str_in timestamp_not_available ''abc-def''"
    and b': "\<not> str_in timestamp_not_available ''1:xx''"
    by (simp_all add: timestamp_not_available_def)
  have c: "str_split ''-'' ''abc-def'' = ''abc'' # [''def'']"
    and c': "str_split ''-'' ''1:xx'' = ''1:xx'' # []"
    by (simp_all add: str_split_def)
  have d: "\<not> (length (str_split '':'' ''abc'') = 2 \<or> length (str_split '':'' ''abc'') = 3)"
    by (simp add: str_split_def)
  have sp: "str_split '':'' ''1:xx'' = [''1'', ''xx'']" by (simp add: str_split_def)
  have "\<not> returns (py_int_str ''xx'')"
    by (simp add: py_int_str_def strip_space_def is_space_def is_digit_def Let_def returns_def)
  then have d': "\<not> (\<forall>p \<in> set (str_split '':'' ''1:xx''). returns (py_int_str p))"
    unfolding sp by simp
  note T1 = metadata_parsing_errors
    [of "PStr ''not-a-date''" "''timestamp not available''" "[]" "[]" "[]" 0 "[]" "[]"]
  note T2 = metadata_parsing_errors [of PNone "''abc-def''" "''abc''" "[''def'']" "[]" 0 "[]" "[]"]
  note T3 = metadata_parsing_errors [of PNone "''1:xx''" "''1:xx''" "[]" ?docs 1 ?out "''depth''"]
  from T1 a have e: "(\<exists>r. convert_date_format (PStr ''not-a-date'') = Inr r)"
    and f: "timestamp_to_seconds (PStr ''timestamp not available'') = Inr None"
    by blast+
  from T2 b c d have g: "timestamp_to_seconds (PStr ''abc-def'') = Inl ValueError"
    by blast
  from T3 b' c' d' have h: "timestamp_to_seconds (PStr ''1:xx'') = Inl ValueError"
    by blast
  have h1: "?docs \<noteq> []" and h2: "1 < length ?docs" by simp_all
  have h3: "1 < length (str_split paragraph_sep ?out)"
    unfolding split_first_second by simp
  have h4: "truthy (dict_get (metadata (?docs ! 1)) ''url'' (PStr ''url not available''))"
    by (simp add: dict_get_def truthy_def)
  have h5: "dict_get (metadata (?docs ! 1)) ''timestamp'' (PStr timestamp_not_available) =
              PStr ''1:xx''"
    by (simp add: dict_get_def)
  have h6: "''1:xx'' \<noteq> []" by simp
  have h7: "\<forall>j < 1. metadata_parses (?docs ! j)"
    by (simp add: metadata_parses_empty)
  have h8: "returns (py_basename
         (dict_get (metadata (?docs ! 1)) ''source'' (PStr ''source not available'')))"
    by (simp add: dict_get_def py_basename_def returns_def)
  from T3 h1 h2 h3 h4 h5 h6 h h7 h8
  have k: "\<not> returns (process_responses_llm ''depth'' ?out (Some ?docs))"
    and l: "process_responses_llm ''depth'' ?out (Some ?docs) = Inl ValueError"
    by blast+
  from e f g sp h k l show ?thesis by blast
qed

section \<open>Citations\<close>

lemma date_not_available:
  "convert_date_format (PStr ''date not available'') = Inr ''Invalid date format''"
  by code_simp

lemma title_only_document:
  "process_responses_llm ''depth'' ''The budget passed.''
     (Some [\<lparr>page_content = ''minutes'', metadata = [''title'' \<mapsto> PStr ''Budget hearing'']\<rparr>]) =
   Inr \<lparr>card_type = ''depth'',
        responses = [[(''response'', PStr ''The budget passed.'')]],
        citations = [[(''Title'', PStr ''Budget hearing''),
                      (''Published'', PStr ''Invalid date format''),
                      (''URL'', PStr ''url not available''),
                      (''Video timestamp'', PStr ''timestamp not available''),
                      (''Name'', PStr ''source not available'')]]\<rparr>"
  by code_simp

text \<open>
  Claim C3 says that a document whose metadata has a title and nothing else gives a
  citation with the one key \<open>Title\<close>. The citation has five keys.
\<close>

theorem title_only_citation_counterexample:
  "process_responses_llm ''depth'' ''The budget passed.''
     (Some [\<lparr>page_content = ''minutes'', metadata = [''title'' \<mapsto> PStr ''Budget hearing'']\<rparr>]) =
   Inr \<lparr>card_type = ''depth'',
        responses = [[(''response'', PStr ''The budget passed.'')]],
        citations = [[(''Title'', PStr ''Budget hearing''),
                      (''Published'', PStr ''Invalid date format''),
                      (''URL'', PStr ''url not available''),
                      (''Video timestamp'', PStr ''timestamp not available''),
                      (''Name'', PStr ''source not available'')]]\<rparr>"
  by (rule title_only_document)

text \<open>
  Claim C3, amended. For a document whose metadata has a title and no other field, the
  citation built at its index has exactly five keys, in this order: \<open>Title\<close>, then
  \<open>Published\<close>, \<open>URL\<close>, \<open>Video timestamp\<close> and \<open>Name\<close> with the default markers of the
  missing fields. Only \<open>Page Number\<close> is left out.
\<close>

theorem title_only_citation:
  assumes "i < length docs"
    and "metadata (docs ! i) = [''title'' \<mapsto> v]" and "v \<noteq> PNone"
  shows "\<exists>cols. build_columns docs = Inr cols \<and>
           gen_responses gr cols i =
             Inr (if i < length gr then PStr (gr ! i) else PNone,
                  [(''Title'', v),
                   (''Published'', PStr ''Invalid date format''),
                   (''URL'', PStr ''url not available''),
                   (''Video timestamp'', PStr ''timestamp not available''),
                   (''Name'', PStr ''source not available'')])"
proof -
  obtain cols where cols: "build_columns docs = Inr cols"
    using build_columns_returns by blast
  note lens = build_columns_lengths [OF cols]
  note nth = build_columns_nth [OF cols assms(1)]
  from nth(1) assms(2) have title: "generated_titles cols ! i = v"
    by (simp add: dict_get_def)
  from nth(2) assms(2) have page: "page_numbers cols ! i = PNone"
    by (simp add: dict_get_def)
  from nth(3) assms(2) have src: "generated_sources cols ! i = PStr ''source not available''"
    by (simp add: dict_get_def)
  from nth(4) assms(2) have ts: "timestamps cols ! i = PStr timestamp_not_available"
    by (simp add: dict_get_def)
  from nth(5) assms(2) have url: "urls cols ! i = PStr ''url not available''"
    by (simp add: dict_get_def)
  from nth(6) assms(2) have date: "publish_dates cols ! i = PStr ''Invalid date format''"
    by (auto simp: dict_get_def date_not_available)
  have "gen_responses gr cols i =
             Inr (if i < length gr then PStr (gr ! i) else PNone,
                  [(''Title'', v),
                   (''Published'', PStr ''Invalid date format''),
                   (''URL'', PStr ''url not available''),
                   (''Video timestamp'', PStr ''timestamp not available''),
                   (''Name'', PStr ''source not available'')])"
    unfolding gen_responses_within [OF lens assms(1)] title page src ts url date
      basename_source_not_available augment_url_unavailable
    using assms(3) by (simp add: build_citation_def timestamp_not_available_def)
  with cols show ?thesis by blast
qed

theorem title_only_citation_witness:
  "(0::nat) < length [\<lparr>page_content = ''minutes'', metadata = [''title'' \<mapsto> PStr ''Budget hearing'']\<rparr>] \<and>
   metadata ([\<lparr>page_content = ''minutes'', metadata = [''title'' \<mapsto> PStr ''Budget hearing'']\<rparr>] ! 0) =
     [''title'' \<mapsto> PStr ''Budget hearing''] \<and>
   PStr ''Budget hearing'' \<noteq> PNone \<and>
   (\<exists>cols. build_columns [\<lparr>page_content = ''minutes'', metadata = [''title'' \<mapsto> PStr ''Budget hearing'']\<rparr>] = Inr cols \<and>
           gen_responses [''The budget passed.''] cols 0 =
             Inr (PStr ''The budget passed.'',
                  [(''Title'', PStr ''Budget hearing''),
                   (''Published'', PStr ''Invalid date format''),
                   (''URL'', PStr ''url not available''),
                   (''Video timestamp'', PStr ''timestamp not available''),
                   (''Name'', PStr ''source not available'')]))"
proof -
  let ?docs = "[\<lparr>page_content = ''minutes'', metadata = [''title'' \<mapsto> PStr ''Budget hearing'']\<rparr>]"
  have a: "(0::nat) < length ?docs" by simp
  have b: "metadata (?docs ! 0) = [''title'' \<mapsto> PStr ''Budget hearing'']" by simp
  have c: "PStr ''Budget hearing'' \<noteq> PNone" by simp
  from title_only_citation [OF a b c, of "[''The budget passed.'']"]
  have "\<exists>cols. build_columns ?docs = Inr cols \<and>
           gen_responses [''The budget passed.''] cols 0 =
             Inr (PStr ''The budget passed.'',
                  [(''Title'', PStr ''Budget hearing''),
                   (''Published'', PStr ''Invalid date format''),
                   (''URL'', PStr ''url not available''),
                   (''Video timestamp'', PStr ''timestamp not available''),
                   (''Name'', PStr ''source not available'')])"
    by simp
  with a b c show ?thesis by blast
qed




section \<open>Counting sections and citations\<close>







lemma empty_output_one_document:
  "process_responses_llm ''depth'' []
     (Some [\<lparr>page_content = ''minutes'', metadata = [''title'' \<mapsto> PStr ''Budget hearing'']\<rparr>]) =
   Inr \<lparr>card_type = ''depth'',
        responses = [],
        citations = [[(''Title'', PStr ''Budget hearing''),
                      (''Published'', PStr ''Invalid date format''),
                      (''URL'', PStr ''url not available''),
                      (''Video timestamp'', PStr ''timestamp not available''),
                      (''Name'', PStr ''source not available'')]]\<rparr>"
  by code_simp

text \<open>
  Claim C10. For a non-empty list of documents, the citations of the card that the
  assembler emits are as many as the smaller of the number of paragraphs and the number
  of documents, each has the key \<open>Name\<close>, and they are never more than the documents. A
  card is emitted whenever the metadata of every document parses. The sections can be
  fewer than the citations, since an empty paragraph gives no section.
\<close>

theorem citations_count:
  "(docs \<noteq> [] \<and> process_responses_llm rt out (Some docs) = Inr crd \<longrightarrow>
      length (citations crd) = min (length (str_split paragraph_sep out)) (length docs) \<and>
      (\<forall>c \<in> set (citations crd). \<exists>b. (''Name'', PStr b) \<in> set c) \<and>
      length (citations crd) \<le> length docs) \<and>
   (docs \<noteq> [] \<and> (\<forall>d \<in> set docs. metadata_parses d) \<longrightarrow>
      returns (process_responses_llm rt out (Some docs))) \<and>
   (\<exists>rt' out' docs' crd'.
      docs' \<noteq> [] \<and> process_responses_llm rt' out' (Some docs') = Inr crd' \<and>
      length (responses crd') < length (citations crd'))"
proof (intro conjI impI)
  assume a: "docs \<noteq> [] \<and> process_responses_llm rt out (Some docs) = Inr crd"
  then have ne: "docs \<noteq> []" and c: "process_responses_llm rt out (Some docs) = Inr crd"
    by simp_all
  from process_card(3) [OF ne c]
  show l: "length (citations crd) = min (length (str_split paragraph_sep out)) (length docs)" .
  from process_card(4) [OF ne c]
  show "\<forall>c \<in> set (citations crd). \<exists>b. (''Name'', PStr b) \<in> set c" .
  from l show "length (citations crd) \<le> length docs" by simp
next
  assume a: "docs \<noteq> [] \<and> (\<forall>d \<in> set docs. metadata_parses d)"
  then have ne: "docs \<noteq> []" by simp
  from a have "\<forall>i < min (length (str_split paragraph_sep out)) (length docs).
                 metadata_parses (docs ! i)"
    by simp
  with process_returns_iff [OF ne, of rt out]
  show "returns (process_responses_llm rt out (Some docs))" by simp
next
  let ?d = "\<lparr>page_content = ''minutes'', metadata = [''title'' \<mapsto> PStr ''Budget hearing'']\<rparr>"
  let ?crd = "\<lparr>card_type = ''depth'',
        responses = [],
        citations = [[(''Title'', PStr ''Budget hearing''),
                      (''Published'', PStr ''Invalid date format''),
                      (''URL'', PStr ''url not available''),
                      (''Video timestamp'', PStr ''timestamp not available''),
                      (''Name'', PStr ''source not available'')]]\<rparr>"
  have "[?d] \<noteq> [] \<and> process_responses_llm ''depth'' [] (Some [?d]) = Inr ?crd \<and>
        length (responses ?crd) < length (citations ?crd)"
    using empty_output_one_document by simp
  then show "\<exists>rt' out' docs' crd'.
      docs' \<noteq> [] \<and> process_responses_llm rt' out' (Some docs') = Inr crd' \<and>
      length (responses crd') < length (citations crd')"
    by blast
qed

theorem citations_count_witness:
  "[\<lparr>page_content = ''minutes'', metadata = [''title'' \<mapsto> PStr ''Budget hearing'']\<rparr>] \<noteq> [] \<and>
   metadata_parses \<lparr>page_content = ''minutes'', metadata = [''title'' \<mapsto> PStr ''Budget hearing'']\<rparr> \<and>
   returns (process_responses_llm ''depth'' []
     (Some [\<lparr>page_content = ''minutes'', metadata = [''title'' \<mapsto> PStr ''Budget hearing'']\<rparr>])) \<and>
   (\<exists>crd. process_responses_llm ''depth'' []
       (Some [\<lparr>page_content = ''minutes'', metadata = [''title'' \<mapsto> PStr ''Budget hearing'']\<rparr>]) =
       Inr crd \<and>
     length (citations crd) = 1 \<and>
     (\<exists>b. (''Name'', PStr b) \<in> set (hd (citations crd))) \<and>
     length (responses crd) < length (citations crd))"
proof -
  let ?d = "\<lparr>page_content = ''minutes'', metadata = [''title'' \<mapsto> PStr ''Budget hearing'']\<rparr>"
  have ne: "[?d] \<noteq> []" by simp
  have mp: "metadata_parses ?d"
    by (simp add: metadata_parses_def dict_get_def basename_source_not_available
        augment_url_unavailable returns_def)
  then have all: "\<forall>d \<in> set [?d]. metadata_parses d" by simp
  have sp: "str_split paragraph_sep [] = [[]]" by (simp add: str_split_def)
  note T = citations_count [of "[?d]" "''depth''" "[]"]
  from T ne all have r: "returns (process_responses_llm ''depth'' [] (Some [?d]))"
    by blast
  then obtain crd where c: "process_responses_llm ''depth'' [] (Some [?d]) = Inr crd"
    by (auto simp: returns_iff)
  with T [of crd] ne have l: "length (citations crd) = min (length (str_split paragraph_sep [])) (length [?d])"
    and n: "\<forall>c \<in> set (citations crd). \<exists>b. (''Name'', PStr b) \<in> set c"
    by blast+
  from l have l1: "length (citations crd) = 1" unfolding sp by simp
  then have "hd (citations crd) \<in> set (citations crd)"
    by (cases "citations crd") simp_all
  with n have nm: "\<exists>b. (''Name'', PStr b) \<in> set (hd (citations crd))" by blast
  from c empty_output_one_document have "responses crd = []" by auto
  with l1 have "length (responses crd) < length (citations crd)" by simp
  with ne mp r c l1 nm show ?thesis by blast
qed

end
